theory Spec2Isabelle
  imports Complex_Main "HOL-Library.AList"
begin

section \<open>Python values, dictionaries and exceptions\<close>

text \<open>
  The program is \<^verbatim>\<open>src/backend/main.py\<close>. Its cells, document fields and
  dictionary values are Python objects; the ones that occur are strings, numbers,
  booleans, the missing values \<^verbatim>\<open>NaN\<close> and \<^verbatim>\<open>None\<close>, and the store's
  \<^verbatim>\<open>SERVER_TIMESTAMP\<close> sentinel. A number is a rational or one of the two
  infinities of a float (Python's \<^verbatim>\<open>==\<close> identifies \<^verbatim>\<open>0\<close> and \<^verbatim>\<open>0.0\<close>, and so
  does this type; rounding is not modelled). Strings are modelled on ASCII.
\<close>

datatype number = Fin rat | PInf | NInf

datatype pyval = VStr string | VNum number | VBool bool | VNaN | VNone | VTimestamp

text \<open>A Python \<^verbatim>\<open>dict\<close> with string keys, in insertion order; its keys are distinct.\<close>

type_synonym pydict = "(string \<times> pyval) list"

text \<open>
  \<^verbatim>\<open>dict(pairs)\<close>, \<^verbatim>\<open>d.update(pairs)\<close> and \<^verbatim>\<open>{**d, k: v, ...}\<close>: a key that is
  already there keeps its place and takes the new value, a new key goes last.
\<close>

definition py_update :: "pydict \<Rightarrow> (string \<times> pyval) list \<Rightarrow> pydict" where
  "py_update d kvs = fold (\<lambda>(k, v). AList.update k v) kvs d"

definition py_dict :: "(string \<times> pyval) list \<Rightarrow> pydict" where
  "py_dict kvs = py_update [] kvs"

text \<open>
  The exceptions that occur. \<open>AttributeError\<close>, \<open>TypeError\<close> and \<open>KeyError\<close> are
  raised by the table library, \<open>NotFound\<close> by the store when a document that is
  updated does not exist; \<open>Failure\<close> is any other exception of an external call
  (network, storage, parser, push channel). \<open>str\<close> is Python's \<^verbatim>\<open>str(e)\<close>.
\<close>

datatype exn =
    AttributeError string
  | TypeError string
  | KeyError string
  | NotFound string
  | Failure string

fun str :: "exn \<Rightarrow> string" where
  "str (AttributeError m) = m"
| "str (TypeError m) = m"
| "str (KeyError k) = [CHR 0x27] @ k @ [CHR 0x27]"
| "str (NotFound m) = m"
| "str (Failure m) = m"

section \<open>The table library, as far as the program uses it\<close>

text \<open>
  A frame's column index is either the empty numeric \<^verbatim>\<open>RangeIndex(0)\<close> or an index
  of string labels (labels may repeat). A frame holds its data by column.
\<close>

datatype index = RangeIndex0 | Index "string list"

fun labels :: "index \<Rightarrow> string list" where
  "labels RangeIndex0 = []"
| "labels (Index cs) = cs"

record dataframe =
  columns :: index
  data :: "pyval list list"
  nrows :: nat

text \<open>
  Two behaviours of the library are not fixed by the program and are parameters of
  the model: how \<^verbatim>\<open>to_numeric\<close> reads a string as a number (\<open>None\<close> when it cannot),
  and the column index of a frame built from an empty list (numeric from pandas 2.0
  on, an empty index of labels before).
\<close>

record pandas =
  str_to_number :: "string \<Rightarrow> number option"
  default_index :: index

text \<open>The column labels of a list of records: the keys, in order of first appearance.\<close>

definition ordered_keys :: "pydict list \<Rightarrow> string list" where
  "ordered_keys raw = rev (remdups (rev (concat (map (map fst) raw))))"

definition cell_of :: "pydict \<Rightarrow> string \<Rightarrow> pyval" where
  "cell_of r c = (case map_of r c of Some v \<Rightarrow> v | None \<Rightarrow> VNaN)"

text \<open>\<^verbatim>\<open>pd.DataFrame(raw_data)\<close> for a list of dictionaries; a missing key gives \<^verbatim>\<open>NaN\<close>.\<close>

definition DataFrame :: "pandas \<Rightarrow> pydict list \<Rightarrow> dataframe" where
  "DataFrame pd raw =
     (if raw = [] then \<lparr>columns = default_index pd, data = [], nrows = 0\<rparr>
      else \<lparr>columns = Index (ordered_keys raw),
            data = map (\<lambda>c. map (\<lambda>r. cell_of r c) raw) (ordered_keys raw),
            nrows = length raw\<rparr>)"

text \<open>\<^verbatim>\<open>str.strip()\<close>, \<^verbatim>\<open>str.lower()\<close> and \<^verbatim>\<open>str.replace(' ', '_')\<close> on ASCII.\<close>

definition isspace :: "char \<Rightarrow> bool" where
  "isspace c = (c \<in> set [CHR '' '', CHR 0x09, CHR 0x0A, CHR 0x0B, CHR 0x0C, CHR 0x0D,
                         CHR 0x1C, CHR 0x1D, CHR 0x1E, CHR 0x1F])"

definition strip :: "string \<Rightarrow> string" where
  "strip s = rev (dropWhile isspace (rev (dropWhile isspace s)))"

definition lower_char :: "char \<Rightarrow> char" where
  "lower_char c =
     (case map_of (zip ''ABCDEFGHIJKLMNOPQRSTUVWXYZ'' ''abcdefghijklmnopqrstuvwxyz'') c of
        Some d \<Rightarrow> d
      | None \<Rightarrow> c)"

definition lower :: "string \<Rightarrow> string" where
  "lower s = map lower_char s"

definition replace_space :: "string \<Rightarrow> string" where
  "replace_space s = map (\<lambda>c. if c = CHR '' '' then CHR ''_'' else c) s"

definition clean_label :: "string \<Rightarrow> string" where
  "clean_label s = replace_space (lower (strip s))"

text \<open>
  The \<^verbatim>\<open>.str\<close> accessor of an index: refused with \<^verbatim>\<open>AttributeError\<close> on a numeric
  index, elementwise on an index of labels.
\<close>

definition str_accessor :: "index \<Rightarrow> exn + string list" where
  "str_accessor ix =
     (case ix of
        RangeIndex0 \<Rightarrow> Inl (AttributeError ''Can only use .str accessor with string values!'')
      | Index cs \<Rightarrow> Inr cs)"

text \<open>\<^verbatim>\<open>df.fillna(v)\<close>: every \<^verbatim>\<open>NaN\<close> or \<^verbatim>\<open>None\<close> cell becomes \<open>v\<close>.\<close>

definition isna :: "pyval \<Rightarrow> bool" where
  "isna v = (v = VNaN \<or> v = VNone)"

definition fillna :: "pyval \<Rightarrow> dataframe \<Rightarrow> dataframe" where
  "fillna v df = df\<lparr>data := map (map (\<lambda>c. if isna c then v else c)) (data df)\<rparr>"

text \<open>
  \<^verbatim>\<open>df[name]\<close>: the column when one label is \<open>name\<close>, a sub-frame when several are,
  \<^verbatim>\<open>KeyError\<close> when none is.
\<close>

datatype selection = Series "pyval list" | SubFrame "pyval list list"

definition getitem :: "dataframe \<Rightarrow> string \<Rightarrow> exn + selection" where
  "getitem df name =
     (case map snd (filter (\<lambda>(c, col). c = name) (zip (labels (columns df)) (data df))) of
        [] \<Rightarrow> Inl (KeyError name)
      | [col] \<Rightarrow> Inr (Series col)
      | cols \<Rightarrow> Inr (SubFrame cols))"

text \<open>
  \<^verbatim>\<open>df[name] = col\<close>: every column labelled \<open>name\<close> is replaced; when there is none,
  the column is added last.
\<close>

definition setitem :: "dataframe \<Rightarrow> string \<Rightarrow> pyval list \<Rightarrow> dataframe" where
  "setitem df name col =
     (if name \<in> set (labels (columns df))
      then df\<lparr>data := map (\<lambda>(c, old). if c = name then col else old)
                          (zip (labels (columns df)) (data df))\<rparr>
      else df\<lparr>columns := Index (labels (columns df) @ [name]), data := data df @ [col]\<rparr>)"

text \<open>
  \<^verbatim>\<open>pd.to_numeric(sel, errors='coerce')\<close>: a numeric series, \<open>None\<close> standing for the
  \<^verbatim>\<open>NaN\<close> of a value that is not a number; a sub-frame is refused with \<^verbatim>\<open>TypeError\<close>.
\<close>

fun coerce :: "pandas \<Rightarrow> pyval \<Rightarrow> number option" where
  "coerce pd (VNum n) = Some n"
| "coerce pd (VBool b) = Some (Fin (if b then 1 else 0))"
| "coerce pd (VStr s) = str_to_number pd s"
| "coerce pd VNaN = None"
| "coerce pd VNone = None"
| "coerce pd VTimestamp = None"

definition to_numeric :: "pandas \<Rightarrow> selection \<Rightarrow> exn + number option list" where
  "to_numeric pd sel =
     (case sel of
        Series col \<Rightarrow> Inr (map (coerce pd) col)
      | SubFrame cols \<Rightarrow> Inl (TypeError ''arg must be a list, tuple, 1-d array, or Series''))"

text \<open>\<^verbatim>\<open>series.fillna(0)\<close> on a numeric series.\<close>

definition fillna0 :: "number option list \<Rightarrow> pyval list" where
  "fillna0 s = map (\<lambda>x. case x of None \<Rightarrow> VNum (Fin 0) | Some n \<Rightarrow> VNum n) s"

text \<open>\<^verbatim>\<open>series < 10\<close>: elementwise, false on \<^verbatim>\<open>NaN\<close>.\<close>

fun is_below :: "rat \<Rightarrow> number option \<Rightarrow> bool" where
  "is_below b None = False"
| "is_below b (Some (Fin x)) = (x < b)"
| "is_below b (Some PInf) = False"
| "is_below b (Some NInf) = True"

text \<open>\<^verbatim>\<open>np.where(cond, True, False)\<close>.\<close>

definition np_where :: "bool list \<Rightarrow> pyval list" where
  "np_where cond = map (\<lambda>b. if b then VBool True else VBool False) cond"

text \<open>
  \<^verbatim>\<open>df.to_dict(orient='records')\<close>: one dictionary per row; of columns that share a
  label the last one is kept.
\<close>

definition to_dict :: "dataframe \<Rightarrow> pydict list" where
  "to_dict df =
     map (\<lambda>i. py_dict (zip (labels (columns df)) (map (\<lambda>col. col ! i) (data df))))
         [0 ..< nrows df]"

section \<open>The converter: \<^verbatim>\<open>SpreadsheetLogic\<close>\<close>

definition clean_headers :: "dataframe \<Rightarrow> exn + dataframe" where
  "clean_headers df =
     (case str_accessor (columns df) of
        Inl e \<Rightarrow> Inl e
      | Inr cs \<Rightarrow> Inr (df\<lparr>columns := Index (map clean_label cs)\<rparr>))"

definition apply_business_rules :: "pandas \<Rightarrow> dataframe \<Rightarrow> string \<Rightarrow> exn + dataframe" where
  "apply_business_rules pd df0 category =
     (let df = fillna (VStr '''') df0 in
      if category = ''financial'' then
        (if ''amount'' \<in> set (labels (columns df)) then
           (case getitem df ''amount'' of
              Inl e \<Rightarrow> Inl e
            | Inr sel \<Rightarrow>
                (case to_numeric pd sel of
                   Inl e \<Rightarrow> Inl e
                 | Inr s \<Rightarrow> Inr (setitem df ''amount'' (fillna0 s))))
         else Inr df)
      else if category = ''inventory'' then
        (if ''stock'' \<in> set (labels (columns df)) then
           (case getitem df ''stock'' of
              Inl e \<Rightarrow> Inl e
            | Inr sel \<Rightarrow>
                (case to_numeric pd sel of
                   Inl e \<Rightarrow> Inl e
                 | Inr s \<Rightarrow>
                     Inr (setitem df ''low_stock_alert'' (np_where (map (is_below 10) s)))))
         else Inr df)
      else Inr df)"

text \<open>
  \<^verbatim>\<open>process\<close>; the progress line it prints is recorded by its caller
  \<open>process_file_task\<close> below.
\<close>

definition process :: "pandas \<Rightarrow> pydict list \<Rightarrow> string \<Rightarrow> exn + pydict list" where
  "process pd raw_data category =
     (case clean_headers (DataFrame pd raw_data) of
        Inl e \<Rightarrow> Inl e
      | Inr df \<Rightarrow>
          (case apply_business_rules pd df category of
             Inl e \<Rightarrow> Inl e
           | Inr df' \<Rightarrow> Inr (to_dict df')))"

text \<open>
  A concrete instance of the library for running the model: pandas from 2.0 on, with
  a reader of plain decimal literals (an optional sign, digits, an optional
  fractional part), which is what the examples of the specification need.
\<close>

definition digit_of :: "char \<Rightarrow> nat option" where
  "digit_of c = map_of (zip ''0123456789'' [0, 1, 2, 3, 4, 5, 6, 7, 8, 9]) c"

fun digits_value :: "nat \<Rightarrow> string \<Rightarrow> nat option" where
  "digits_value acc [] = Some acc"
| "digits_value acc (c # cs) =
     (case digit_of c of None \<Rightarrow> None | Some d \<Rightarrow> digits_value (10 * acc + d) cs)"

definition unsigned_decimal :: "string \<Rightarrow> rat option" where
  "unsigned_decimal s =
     (let ip = takeWhile (\<lambda>c. c \<noteq> CHR ''.'') s;
          fp = drop 1 (dropWhile (\<lambda>c. c \<noteq> CHR ''.'') s)
      in if ip = [] \<and> fp = [] then None
         else (case (digits_value 0 ip, digits_value 0 fp) of
                 (Some i, Some f) \<Rightarrow> Some (of_nat i + of_nat f / of_nat (10 ^ length fp))
               | _ \<Rightarrow> None))"

definition decimal_literal :: "string \<Rightarrow> number option" where
  "decimal_literal s0 =
     (case strip s0 of
        [] \<Rightarrow> None
      | c # cs \<Rightarrow>
          if c = CHR ''-'' then map_option (\<lambda>x. Fin (- x)) (unsigned_decimal cs)
          else if c = CHR ''+'' then map_option Fin (unsigned_decimal cs)
          else map_option Fin (unsigned_decimal (c # cs)))"

definition pandas2 :: pandas where
  "pandas2 = \<lparr>str_to_number = decimal_literal, default_index = RangeIndex0\<rparr>"

section \<open>The store, the scratch directory, the push channel and the console\<close>

text \<open>
  The requests (\<^verbatim>\<open>DeleteRequest\<close>, \<^verbatim>\<open>ProcessRequest\<close>), the message sent on the
  push channel, and the lines the orchestrators print.
\<close>

record DeleteRequest =
  taskId :: string
  userId :: string

record ProcessRequest =
  filePath :: string
  fileName :: string
  userId :: string
  category :: string
  fileType :: string
  customName :: "string option"
  expiryDate :: "string option"

record message =
  title :: string
  body :: string
  payload :: "(string \<times> string) list"
  topic :: string

datatype console_line =
    Processing string string string
  | Converting nat string
  | NotificationError exn
  | Error exn
  | Deleted string
  | DeleteError exn

text \<open>
  The world the orchestrators act on: the collection \<^verbatim>\<open>processing_tasks\<close> (document id
  to document), the collection \<^verbatim>\<open>app_data\<close> (its documents carry generated ids that
  nothing reads, so a list stands for it), what exists at each path of the scratch
  directory (a regular file, a directory, or nothing), the messages accepted by the
  push channel, and the console.
\<close>

datatype node = RegularFile | Directory

record world =
  processing_tasks :: "string \<rightharpoonup> pydict"
  app_data :: "pydict list"
  tmp_files :: "string \<rightharpoonup> node"
  pushed :: "message list"
  console :: "console_line list"

text \<open>
  What \<^verbatim>\<open>os.path\<close> finds at a path. The scratch directory itself exists (the function
  creates it first), so the paths that name it or its parent are directories in every
  world: they are the scratch paths of the file names \<^verbatim>\<open>''\<close>, \<^verbatim>\<open>'.'\<close> and \<^verbatim>\<open>'..'\<close>.
\<close>

definition names_scratch_dir :: "string \<Rightarrow> bool" where
  "names_scratch_dir p = (p \<in> set [''/tmp/'', ''/tmp/.'', ''/tmp/..''])"

definition node_at :: "world \<Rightarrow> string \<Rightarrow> node option" where
  "node_at w p = (if names_scratch_dir p then Some Directory else tmp_files w p)"

text \<open>The \<^verbatim>\<open>IsADirectoryError\<close> of \<^verbatim>\<open>open\<close> and of \<^verbatim>\<open>os.remove\<close> on a directory.\<close>

definition is_a_directory :: "string \<Rightarrow> exn" where
  "is_a_directory p = Failure (''[Errno 21] Is a directory: '' @ [CHR 0x27] @ p @ [CHR 0x27])"

definition py_print :: "console_line \<Rightarrow> world \<Rightarrow> world" where
  "py_print l w = w\<lparr>console := console w @ [l]\<rparr>"

text \<open>
  What the external calls of one ingestion run do is given by an environment: the id
  that \<^verbatim>\<open>document()\<close> generates, and for each call whether it raises (\<open>Some e\<close>) or
  what it returns. A download that raises says whether it leaves a file at the
  scratch path. The parsers return the frame they read.
\<close>

record ingest_env =
  new_task_id :: string
  task_set :: "exn option"
  download_to_filename :: "exn \<times> bool + unit"
  read_csv :: "exn + dataframe"
  read_excel :: "exn + dataframe"
  batch_commit :: "exn option"
  completed_update :: "exn option"
  messaging_send :: "exn option"
  error_update :: "exn option"

record delete_env =
  task_get :: "exn option"
  query_stream :: "exn option"
  delete_commit :: "exn option"
  task_delete :: "exn option"

text \<open>
  \<^verbatim>\<open>task_ref.set(d)\<close> writes the whole document; \<^verbatim>\<open>task_ref.update(fields)\<close> merges
  fields into a document that must exist. Either changes nothing when it raises.
\<close>

definition doc_set :: "exn option \<Rightarrow> string \<Rightarrow> pydict \<Rightarrow> world \<Rightarrow> exn \<times> world + world" where
  "doc_set outcome ref d w =
     (case outcome of
        Some e \<Rightarrow> Inl (e, w)
      | None \<Rightarrow> Inr (w\<lparr>processing_tasks := (processing_tasks w)(ref \<mapsto> d)\<rparr>))"

definition doc_update :: "exn option \<Rightarrow> string \<Rightarrow> (string \<times> pyval) list \<Rightarrow> world \<Rightarrow> exn \<times> world + world" where
  "doc_update outcome ref changes w =
     (case outcome of
        Some e \<Rightarrow> Inl (e, w)
      | None \<Rightarrow>
          (case processing_tasks w ref of
             None \<Rightarrow> Inl (NotFound ref, w)
           | Some d \<Rightarrow> Inr (w\<lparr>processing_tasks := (processing_tasks w)(ref \<mapsto> py_update d changes)\<rparr>)))"

section \<open>The ingestion orchestrator: \<^verbatim>\<open>process_file_task\<close>\<close>

definition temp_path :: "ProcessRequest \<Rightarrow> string" where
  "temp_path request = ''/tmp/'' @ fileName request"

definition opt_val :: "string option \<Rightarrow> pyval" where
  "opt_val x = (case x of None \<Rightarrow> VNone | Some s \<Rightarrow> VStr s)"

text \<open>Python's truth value of an optional string: neither \<^verbatim>\<open>None\<close> nor empty.\<close>

definition truthy :: "string option \<Rightarrow> bool" where
  "truthy x = (case x of None \<Rightarrow> False | Some s \<Rightarrow> s \<noteq> [])"

definition task_data :: "ProcessRequest \<Rightarrow> pydict" where
  "task_data request =
     (let d = [(''fileName'', VStr (fileName request)),
               (''uploadedBy'', VStr (ProcessRequest.userId request)),
               (''status'', VStr ''processing''),
               (''category'', VStr (category request)),
               (''type'', VStr (fileType request)),
               (''createdAt'', VTimestamp),
               (''notificationSent'', VBool False)]
      in if fileType request = ''side'' then
           (let d1 = AList.update ''customName'' (opt_val (customName request)) d
            in if truthy (expiryDate request)
               then AList.update ''expiryDate'' (opt_val (expiryDate request)) d1
               else d1)
         else d)"

text \<open>Step A: the task document is created with status \<^verbatim>\<open>processing\<close>.\<close>

definition step_A :: "ingest_env \<Rightarrow> ProcessRequest \<Rightarrow> string \<Rightarrow> world \<Rightarrow> exn \<times> world + world" where
  "step_A env request task_ref w = doc_set (task_set env) task_ref (task_data request) w"

text \<open>
  Step B: the file is downloaded to the scratch path. The download opens the scratch
  path for writing before it fetches anything, which raises when the path is a
  directory.
\<close>

definition step_B :: "ingest_env \<Rightarrow> ProcessRequest \<Rightarrow> world \<Rightarrow> exn \<times> world + world" where
  "step_B env request w =
     (if node_at w (temp_path request) = Some Directory
      then Inl (is_a_directory (temp_path request), w)
      else case download_to_filename env of
             Inl (e, left_behind) \<Rightarrow>
               Inl (e, w\<lparr>tmp_files := (tmp_files w)
                            (temp_path request := if left_behind then Some RegularFile else None)\<rparr>)
           | Inr _ \<Rightarrow> Inr (w\<lparr>tmp_files := (tmp_files w)(temp_path request \<mapsto> RegularFile)\<rparr>))"

text \<open>\<^verbatim>\<open>fileName.endswith('.csv')\<close>.\<close>

definition endswith :: "string \<Rightarrow> string \<Rightarrow> bool" where
  "endswith s suffix = (length suffix \<le> length s \<and> drop (length s - length suffix) s = suffix)"

text \<open>Step C: the file is parsed by its extension and converted.\<close>

definition step_C :: "pandas \<Rightarrow> ingest_env \<Rightarrow> ProcessRequest \<Rightarrow> world \<Rightarrow> exn \<times> world + pydict list \<times> world" where
  "step_C pd env request w =
     (case (if endswith (fileName request) ''.csv'' then read_csv env else read_excel env) of
        Inl e \<Rightarrow> Inl (e, w)
      | Inr df \<Rightarrow>
          (let raw_data = to_dict df;
               w1 = py_print (Converting (length raw_data) (category request)) w
           in case process pd raw_data (category request) of
                Inl e \<Rightarrow> Inl (e, w1)
              | Inr processed_data \<Rightarrow> Inr (processed_data, w1)))"

text \<open>
  Step D: one batch holds a document for each of the first 400 converted rows; the
  commit writes all of them or, when it raises, none.
\<close>

definition app_doc :: "ProcessRequest \<Rightarrow> string \<Rightarrow> pydict \<Rightarrow> pydict" where
  "app_doc request task_ref item =
     py_update item [(''sourceFileId'', VStr task_ref),
                     (''category'', VStr (category request)),
                     (''customName'', opt_val (customName request)),
                     (''updatedAt'', VTimestamp)]"

definition step_D :: "ingest_env \<Rightarrow> ProcessRequest \<Rightarrow> string \<Rightarrow> pydict list \<Rightarrow> world \<Rightarrow> exn \<times> world + world" where
  "step_D env request task_ref processed_data w =
     (let batch = map (app_doc request task_ref) (take 400 processed_data)
      in case batch_commit env of
           Some e \<Rightarrow> Inl (e, w)
         | None \<Rightarrow> Inr (w\<lparr>app_data := app_data w @ batch\<rparr>))"

text \<open>Step E: the task is marked completed.\<close>

definition step_E :: "ingest_env \<Rightarrow> string \<Rightarrow> pydict list \<Rightarrow> world \<Rightarrow> exn \<times> world + world" where
  "step_E env task_ref processed_data w =
     doc_update (completed_update env) task_ref
       [(''status'', VStr ''completed''),
        (''recordCount'', VNum (Fin (of_nat (length processed_data)))),
        (''notificationSent'', VBool True)] w"

text \<open>Step F: the push notification, in a \<^verbatim>\<open>try\<close> of its own.\<close>

definition sync_message :: "ProcessRequest \<Rightarrow> string \<Rightarrow> message" where
  "sync_message request task_ref =
     \<lparr>title = ''New Data Synced'',
      body = ''Updated '' @ category request @ '': '' @
             (if truthy (customName request) then the (customName request) else ''Main File''),
      payload = [(''type'', ''DATA_UPDATE''),
                 (''categoryId'', category request),
                 (''sourceId'', task_ref)],
      topic = ''data_updates''\<rparr>"

definition step_F :: "ingest_env \<Rightarrow> ProcessRequest \<Rightarrow> string \<Rightarrow> world \<Rightarrow> world" where
  "step_F env request task_ref w =
     (case messaging_send env of
        None \<Rightarrow> w\<lparr>pushed := pushed w @ [sync_message request task_ref]\<rparr>
      | Some msg_err \<Rightarrow> py_print (NotificationError msg_err) w)"

text \<open>
  The statements of the outer \<^verbatim>\<open>try\<close> before the notification. An exception leaves
  with the world as it is then and with \<^verbatim>\<open>task_ref\<close>, which is assigned before the
  first call that can raise.
\<close>

definition steps_A_to_E ::
  "pandas \<Rightarrow> ingest_env \<Rightarrow> ProcessRequest \<Rightarrow> world \<Rightarrow> exn \<times> string option \<times> world + string \<times> world" where
  "steps_A_to_E pd env request w0 =
     (let w = py_print (Processing (ProcessRequest.userId request) (fileType request) (fileName request)) w0;
          task_ref = new_task_id env
      in case step_A env request task_ref w of
           Inl (e, w') \<Rightarrow> Inl (e, Some task_ref, w')
         | Inr wa \<Rightarrow>
        (case step_B env request wa of
           Inl (e, w') \<Rightarrow> Inl (e, Some task_ref, w')
         | Inr wb \<Rightarrow>
        (case step_C pd env request wb of
           Inl (e, w') \<Rightarrow> Inl (e, Some task_ref, w')
         | Inr (processed_data, wc) \<Rightarrow>
        (case step_D env request task_ref processed_data wc of
           Inl (e, w') \<Rightarrow> Inl (e, Some task_ref, w')
         | Inr wd \<Rightarrow>
        (case step_E env task_ref processed_data wd of
           Inl (e, w') \<Rightarrow> Inl (e, Some task_ref, w')
         | Inr we \<Rightarrow> Inr (task_ref, we))))))"

text \<open>
  The handler of the outer \<^verbatim>\<open>try\<close>: with a task reference, the error is recorded on
  the task; an exception of that update leaves the function.
\<close>

definition except_handler :: "ingest_env \<Rightarrow> exn \<Rightarrow> string option \<Rightarrow> world \<Rightarrow> exn \<times> world + world" where
  "except_handler env e task_ref w0 =
     (let w = py_print (Error e) w0
      in case task_ref of
           None \<Rightarrow> Inr w
         | Some ref \<Rightarrow>
             doc_update (error_update env) ref
               [(''status'', VStr ''error''), (''errorMessage'', VStr (str e))] w)"

text \<open>
  The \<^verbatim>\<open>finally\<close> clause: when something exists at the scratch path,
  \<^verbatim>\<open>os.remove\<close> removes it, which raises when it is a directory. \<open>cleanup\<close> is the
  removal itself.
\<close>

definition cleanup :: "ProcessRequest \<Rightarrow> world \<Rightarrow> world" where
  "cleanup request w = w\<lparr>tmp_files := (tmp_files w)(temp_path request := None)\<rparr>"

definition finally_clause :: "ProcessRequest \<Rightarrow> world \<Rightarrow> exn \<times> world + world" where
  "finally_clause request w =
     (case node_at w (temp_path request) of
        None \<Rightarrow> Inr w
      | Some RegularFile \<Rightarrow> Inr (cleanup request w)
      | Some Directory \<Rightarrow> Inl (is_a_directory (temp_path request), w))"

text \<open>
  \<^verbatim>\<open>process_file_task\<close>: \<open>Inr\<close> when the function returns, \<open>Inl\<close> when an exception
  leaves it, each with the world it leaves behind. The scratch directory exists, so
  \<^verbatim>\<open>os.makedirs\<close> does nothing. An exception of the \<^verbatim>\<open>finally\<close> clause leaves the
  function, in place of the one that was on its way out, if any.
\<close>

definition process_file_task :: "pandas \<Rightarrow> ingest_env \<Rightarrow> ProcessRequest \<Rightarrow> world \<Rightarrow> exn \<times> world + world" where
  "process_file_task pd env request w0 =
     (case (case steps_A_to_E pd env request w0 of
              Inr (task_ref, w) \<Rightarrow> Inr (step_F env request task_ref w)
            | Inl (e, task_ref, w) \<Rightarrow> except_handler env e task_ref w) of
        Inr w \<Rightarrow> finally_clause request w
      | Inl (e, w) \<Rightarrow>
          (case finally_clause request w of
             Inl (e', w') \<Rightarrow> Inl (e', w')
           | Inr w' \<Rightarrow> Inl (e, w')))"

definition returned :: "exn \<times> world + world \<Rightarrow> bool" where
  "returned r = (case r of Inr _ \<Rightarrow> True | Inl _ \<Rightarrow> False)"

definition final_world :: "exn \<times> world + world \<Rightarrow> world" where
  "final_world r = (case r of Inr w \<Rightarrow> w | Inl (_, w) \<Rightarrow> w)"

text \<open>A field of a task document, and the records published after a given world.\<close>

definition task_field :: "string \<Rightarrow> string \<Rightarrow> world \<Rightarrow> pyval option" where
  "task_field ref k w = (case processing_tasks w ref of None \<Rightarrow> None | Some d \<Rightarrow> map_of d k)"

definition published :: "world \<Rightarrow> world \<Rightarrow> pydict list" where
  "published w w' = drop (length (app_data w)) (app_data w')"

section \<open>The deletion orchestrator: \<^verbatim>\<open>delete_file_task\<close>\<close>

text \<open>The documents of \<^verbatim>\<open>app_data\<close> that \<^verbatim>\<open>where('sourceFileId', '==', ref)\<close> selects.\<close>

definition has_source :: "string \<Rightarrow> pydict \<Rightarrow> bool" where
  "has_source ref d = (map_of d ''sourceFileId'' = Some (VStr ref))"

definition records_of :: "string \<Rightarrow> world \<Rightarrow> pydict list" where
  "records_of ref w = filter (has_source ref) (app_data w)"

text \<open>
  The function catches every exception and prints it, so it always returns. A commit
  that raises deletes nothing.
\<close>

definition delete_file_task :: "delete_env \<Rightarrow> DeleteRequest \<Rightarrow> world \<Rightarrow> world" where
  "delete_file_task env request w =
     (case task_get env of
        Some e \<Rightarrow> py_print (DeleteError e) w
      | None \<Rightarrow>
     (case processing_tasks w (taskId request) of
        None \<Rightarrow> w
      | Some doc \<Rightarrow>
     (case query_stream env of
        Some e \<Rightarrow> py_print (DeleteError e) w
      | None \<Rightarrow>
     (case delete_commit env of
        Some e \<Rightarrow> py_print (DeleteError e) w
      | None \<Rightarrow>
     (let w1 = w\<lparr>app_data := filter (\<lambda>d. \<not> has_source (taskId request) d) (app_data w)\<rparr>
      in case task_delete env of
           Some e \<Rightarrow> py_print (DeleteError e) w1
         | None \<Rightarrow>
             py_print (Deleted (taskId request))
               (w1\<lparr>processing_tasks := (processing_tasks w1)(taskId request := None)\<rparr>))))))"

text \<open>
  Every published record names a task of the ledger: the invariant that ingestion and
  deletion keep.
\<close>

definition provenance_inv :: "world \<Rightarrow> bool" where
  "provenance_inv w =
     list_all (\<lambda>d. case map_of d ''sourceFileId'' of
                     Some (VStr ref) \<Rightarrow> processing_tasks w ref \<noteq> None
                   | _ \<Rightarrow> False) (app_data w)"

section \<open>The health probe\<close>

definition health_check :: "world \<Rightarrow> (string \<times> string) list \<times> world" where
  "health_check w = ([(''status'', ''ready'')], w)"

section \<open>Concrete inputs\<close>

definition world0 :: world where
  "world0 = \<lparr>processing_tasks = Map.empty, app_data = [], tmp_files = Map.empty, pushed = [],
              console = []\<rparr>"

definition request_a :: ProcessRequest where
  "request_a = \<lparr>filePath = ''uploads/alice/report.csv'', fileName = ''report.csv'',
                 userId = ''alice'', category = ''financial'', fileType = ''main'',
                 customName = None, expiryDate = None\<rparr>"

definition request_b :: ProcessRequest where
  "request_b = \<lparr>filePath = ''uploads/bob/report.csv'', fileName = ''report.csv'',
                 userId = ''bob'', category = ''inventory'', fileType = ''main'',
                 customName = None, expiryDate = None\<rparr>"

definition env_ok :: ingest_env where
  "env_ok = \<lparr>new_task_id = ''task1'', task_set = None, download_to_filename = Inr (),
              read_csv = Inr \<lparr>columns = Index [''Amount''],
                                data = [[VStr ''12.5'', VStr ''bad'']], nrows = 2\<rparr>,
              read_excel = Inl (Failure ''not a workbook''),
              batch_commit = None, completed_update = None, messaging_send = None,
              error_update = None\<rparr>"

definition env_fetch_fails :: ingest_env where
  "env_fetch_fails =
     env_ok\<lparr>download_to_filename := Inl (Failure ''404 No such object: uploads/alice/report.csv'', False)\<rparr>"

definition env_stuck :: ingest_env where
  "env_stuck = env_fetch_fails\<lparr>error_update := Some (Failure ''503 store unavailable'')\<rparr>"

definition env_silent_fetch :: ingest_env where
  "env_silent_fetch = env_ok\<lparr>download_to_filename := Inl (Failure [], False)\<rparr>"

definition env_push_fails :: ingest_env where
  "env_push_fails = env_ok\<lparr>messaging_send := Some (Failure ''push channel unavailable'')\<rparr>"

definition env_big :: ingest_env where
  "env_big = env_ok\<lparr>read_csv := Inr \<lparr>columns = Index [''sku''],
                                        data = [replicate 401 (VStr ''x'')], nrows = 401\<rparr>\<rparr>"

definition request_c :: ProcessRequest where
  "request_c = \<lparr>filePath = ''uploads/carol/items.csv'', fileName = ''items.csv'',
                 userId = ''carol'', category = ''catalog'', fileType = ''side'',
                 customName = Some ''Items'', expiryDate = Some ''2026-12-31''\<rparr>"

definition delete_ok :: delete_env where
  "delete_ok = \<lparr>task_get = None, query_stream = None, delete_commit = None, task_delete = None\<rparr>"

definition run_a :: "exn \<times> world + world" where
  "run_a = process_file_task pandas2 env_ok request_a world0"

definition run_fetch_fails :: "exn \<times> world + world" where
  "run_fetch_fails = process_file_task pandas2 env_fetch_fails request_a world0"

definition run_stuck :: "exn \<times> world + world" where
  "run_stuck = process_file_task pandas2 env_stuck request_a world0"

definition run_silent_fetch :: "exn \<times> world + world" where
  "run_silent_fetch = process_file_task pandas2 env_silent_fetch request_a world0"

definition run_push_fails :: "exn \<times> world + world" where
  "run_push_fails = process_file_task pandas2 env_push_fails request_a world0"

definition run_big :: "exn \<times> world + world" where
  "run_big = process_file_task pandas2 env_big request_c world0"

definition delete_task1 :: DeleteRequest where
  "delete_task1 = \<lparr>taskId = ''task1'', DeleteRequest.userId = ''alice''\<rparr>"

section \<open>Vocabulary of the statements\<close>

text \<open>
  The task document after the completion update and after the error update, and the
  frame the parser chosen by the file name returns.
\<close>

definition completed_doc :: "ProcessRequest \<Rightarrow> nat \<Rightarrow> pydict" where
  "completed_doc request n =
     py_update (task_data request)
       [(''status'', VStr ''completed''),
        (''recordCount'', VNum (Fin (of_nat n))),
        (''notificationSent'', VBool True)]"

definition error_doc :: "ProcessRequest \<Rightarrow> exn \<Rightarrow> pydict" where
  "error_doc request e =
     py_update (task_data request)
       [(''status'', VStr ''error''), (''errorMessage'', VStr (str e))]"

definition parsed :: "ingest_env \<Rightarrow> ProcessRequest \<Rightarrow> exn + dataframe" where
  "parsed env request =
     (if endswith (fileName request) ''.csv'' then read_csv env else read_excel env)"

text \<open>
  The exception of a fetch that fails, if it does: the one of opening a directory, or
  the one the download raises.
\<close>

definition fetch_failure :: "ingest_env \<Rightarrow> ProcessRequest \<Rightarrow> world \<Rightarrow> exn option" where
  "fetch_failure env request w =
     (if node_at w (temp_path request) = Some Directory
      then Some (is_a_directory (temp_path request))
      else case download_to_filename env of Inl (e, left_behind) \<Rightarrow> Some e | Inr _ \<Rightarrow> None)"

text \<open>
  The alert the inventory rule derives from a stock cell: the cell after \<^verbatim>\<open>fillna('')\<close>
  is read as a number and compared with 10, a cell that is not a number giving false.
\<close>

definition stock_alert :: "pandas \<Rightarrow> pyval \<Rightarrow> bool" where
  "stock_alert pd v = is_below 10 (coerce pd (if isna v then VStr '''' else v))"


section \<open>Running the converter\<close>

lemma decimal_literal_12_5: "decimal_literal ''12.5'' = Some (Fin (25 / 2))"
  by (simp add: decimal_literal_def strip_def isspace_def unsigned_decimal_def digit_of_def)

lemma decimal_literal_bad: "decimal_literal ''bad'' = None"
  by (simp add: decimal_literal_def strip_def isspace_def unsigned_decimal_def digit_of_def)

lemmas engine_defs =
  process_def DataFrame_def ordered_keys_def clean_headers_def str_accessor_def
  clean_label_def strip_def isspace_def lower_def lower_char_def replace_space_def
  apply_business_rules_def fillna_def isna_def getitem_def to_numeric_def setitem_def
  fillna0_def np_where_def to_dict_def py_dict_def py_update_def cell_of_def Let_def

lemma clean_label_example: "clean_label ''  Unit Price '' = ''unit_price''"
  by (simp add: clean_label_def strip_def isspace_def lower_def lower_char_def replace_space_def)

text \<open>
  C4. For the rows \<^verbatim>\<open>[{"Amount": "12.5"}, {"Amount": "bad"}]\<close> and the category
  \<^verbatim>\<open>financial\<close> the converter returns \<^verbatim>\<open>[{"amount": 12.5}, {"amount": 0}]\<close>: the
  header \<^verbatim>\<open>Amount\<close> is normalised to \<^verbatim>\<open>amount\<close> before the rule looks for that
  column, and the value that is not a number becomes 0. Headers are trimmed, put in
  lower case and their spaces replaced by underscores before the rule is applied:
  with the headers \<^verbatim>\<open>" AMOUNT "\<close> and \<^verbatim>\<open>"Unit Price"\<close> the rule still finds the
  amount, and the other field comes out as \<^verbatim>\<open>unit_price\<close>. The library is any one
  that reads \<^verbatim>\<open>"12.5"\<close> as 12.5 and cannot read \<^verbatim>\<open>"bad"\<close>.
\<close>

theorem C4_financial_example:
  assumes "str_to_number pd ''12.5'' = Some (Fin (25 / 2))"
    and "str_to_number pd ''bad'' = None"
  shows "process pd [[(''Amount'', VStr ''12.5'')], [(''Amount'', VStr ''bad'')]] ''financial''
         = Inr [[(''amount'', VNum (Fin (25 / 2)))], [(''amount'', VNum (Fin 0))]]
       \<and> process pd [[('' AMOUNT '', VStr ''bad''), (''Unit Price'', VStr ''12.5'')]] ''financial''
         = Inr [[(''amount'', VNum (Fin 0)), (''unit_price'', VStr ''12.5'')]]"
  using assms by (simp add: engine_defs)

theorem C4_financial_example_witness:
  "process pandas2 [[(''Amount'', VStr ''12.5'')], [(''Amount'', VStr ''bad'')]] ''financial''
   = Inr [[(''amount'', VNum (Fin (25 / 2)))], [(''amount'', VNum (Fin 0))]]
   \<and> process pandas2 [[('' AMOUNT '', VStr ''bad''), (''Unit Price'', VStr ''12.5'')]] ''financial''
     = Inr [[(''amount'', VNum (Fin 0)), (''unit_price'', VStr ''12.5'')]]"
  using C4_financial_example [of pandas2]
  by (simp add: pandas2_def decimal_literal_12_5 decimal_literal_bad)

text \<open>
  C9. On the empty list of rows the converter raises in the header normalisation,
  whatever the category, when the column index of an empty frame is numeric: the
  string accessor refuses it. It does not return the empty list.
\<close>

theorem C9_empty_input_raises:
  assumes "default_index pd = RangeIndex0"
  shows "process pd [] cat
         = Inl (AttributeError ''Can only use .str accessor with string values!'')"
  using assms by (simp add: process_def DataFrame_def clean_headers_def str_accessor_def)

theorem C9_empty_input_raises_witness:
  "process pandas2 [] ''inventory''
   = Inl (AttributeError ''Can only use .str accessor with string values!'')"
  using C9_empty_input_raises [of pandas2 "''inventory''"] by (simp add: pandas2_def)

text \<open>
  With a library whose empty frame has an empty index of labels (pandas before 2.0)
  the same call returns the empty list.
\<close>

lemma process_empty_label_index:
  "default_index pd = Index [] \<Longrightarrow> process pd [] cat = Inr []"
  by (simp add: engine_defs)

section \<open>The scratch path\<close>

text \<open>
  C6, as the claim states it, fails: two different requests that name the same file
  get the same scratch path.
\<close>

theorem C6_same_file_name_same_path:
  "request_a \<noteq> request_b \<and> fileName request_a = fileName request_b
   \<and> temp_path request_a = temp_path request_b"
  by (simp add: request_a_def request_b_def temp_path_def)

text \<open>
  C6, amended. The scratch path of a job is \<^verbatim>\<open>/tmp/\<close> followed by the file name of
  its request and depends on nothing else: two jobs have the same scratch path
  exactly when their file names are equal.
\<close>

theorem C6_path_from_file_name:
  "temp_path request = ''/tmp/'' @ fileName request
   \<and> (temp_path r1 = temp_path r2) = (fileName r1 = fileName r2)"
  by (simp add: temp_path_def)

section \<open>The health probe is constant\<close>

text \<open>
  C10. In every world the health probe answers \<^verbatim>\<open>{"status": "ready"}\<close> and changes
  nothing.
\<close>

theorem C10_health_check_ready: "health_check w = ([(''status'', ''ready'')], w)"
  by (simp add: health_check_def)

section \<open>The ingestion orchestrator\<close>

lemma map_of_py_update:
  "map_of (py_update d kvs) k =
     (case map_of (rev kvs) k of Some v \<Rightarrow> Some v | None \<Rightarrow> map_of d k)"
  unfolding py_update_def
  by (induction kvs arbitrary: d) (auto simp: update_conv' map_add_def split: option.splits node.splits)

lemma task_data_status: "map_of (task_data request) ''status'' = Some (VStr ''processing'')"
  by (simp add: task_data_def Let_def update_conv')

lemma node_at_updates:
  "node_at (console_update c w) p = node_at w p"
  "node_at (processing_tasks_update t w) p = node_at w p"
  "node_at (app_data_update a w) p = node_at w p"
  "node_at (pushed_update m w) p = node_at w p"
  "node_at (tmp_files_update f w) p
   = (if names_scratch_dir p then Some Directory else f (tmp_files w) p)"
  by (simp_all add: node_at_def)

lemma not_directory_name: "node_at w p \<noteq> Some Directory \<Longrightarrow> \<not> names_scratch_dir p"
  by (auto simp: node_at_def)

lemmas ingest_defs =
  process_file_task_def steps_A_to_E_def step_A_def step_B_def step_C_def step_D_def
  step_E_def step_F_def except_handler_def cleanup_def finally_clause_def node_at_updates
  doc_set_def doc_update_def py_print_def Let_def

lemma ingest_cases [case_names set_fails scratch_is_dir fetch_fails read_fails convert_fails
    commit_fails complete_fails completes]:
  obtains e where "task_set env = Some e"
  | "task_set env = None" "node_at w (temp_path request) = Some Directory"
  | e left_behind where "task_set env = None"
      "node_at w (temp_path request) \<noteq> Some Directory"
      "\<not> names_scratch_dir (temp_path request)"
      "download_to_filename env = Inl (e, left_behind)"
  | e where "task_set env = None" "node_at w (temp_path request) \<noteq> Some Directory"
      "\<not> names_scratch_dir (temp_path request)"
      "download_to_filename env = Inr ()"
      "parsed env request = Inl e"
  | e df where "task_set env = None" "node_at w (temp_path request) \<noteq> Some Directory"
      "\<not> names_scratch_dir (temp_path request)"
      "download_to_filename env = Inr ()"
      "parsed env request = Inr df"
      "process pd (to_dict df) (category request) = Inl e"
  | e df out where "task_set env = None" "node_at w (temp_path request) \<noteq> Some Directory"
      "\<not> names_scratch_dir (temp_path request)"
      "download_to_filename env = Inr ()"
      "parsed env request = Inr df"
      "process pd (to_dict df) (category request) = Inr out" "batch_commit env = Some e"
  | e df out where "task_set env = None" "node_at w (temp_path request) \<noteq> Some Directory"
      "\<not> names_scratch_dir (temp_path request)"
      "download_to_filename env = Inr ()"
      "parsed env request = Inr df"
      "process pd (to_dict df) (category request) = Inr out" "batch_commit env = None"
      "completed_update env = Some e"
  | df out where "task_set env = None" "node_at w (temp_path request) \<noteq> Some Directory"
      "\<not> names_scratch_dir (temp_path request)"
      "download_to_filename env = Inr ()"
      "parsed env request = Inr df"
      "process pd (to_dict df) (category request) = Inr out" "batch_commit env = None"
      "completed_update env = None"
proof (cases "task_set env")
  case (Some e)
  then show ?thesis using that(1) by blast
next
  case set_ok: None
  show ?thesis
  proof (cases "node_at w (temp_path request) = Some Directory")
    case True
    then show ?thesis using set_ok that(2) by blast
  next
    case False
    then have nd: "node_at w (temp_path request) \<noteq> Some Directory"
      "\<not> names_scratch_dir (temp_path request)"
      using not_directory_name by blast+
    show ?thesis
    proof (cases "download_to_filename env")
      case (Inl p)
      then show ?thesis using set_ok nd that(3) by (cases p) blast
    next
      case (Inr u)
      then have dl: "download_to_filename env = Inr ()" by simp
      show ?thesis
      proof (cases "parsed env request")
        case (Inl e)
        then show ?thesis using set_ok nd dl that(4) by blast
      next
        case rd: (Inr df)
        show ?thesis
        proof (cases "process pd (to_dict df) (category request)")
          case (Inl e)
          then show ?thesis using set_ok nd dl rd that(5) by blast
        next
          case cv: (Inr out)
          show ?thesis
          proof (cases "batch_commit env")
            case (Some e)
            then show ?thesis using set_ok nd dl rd cv that(6) by blast
          next
            case cm: None
            show ?thesis
            proof (cases "completed_update env")
              case (Some e)
              then show ?thesis using set_ok nd dl rd cv cm that(7) by blast
            next
              case None
              then show ?thesis using set_ok nd dl rd cv cm that(8) by blast
            qed
          qed
        qed
      qed
    qed
  qed
qed

lemma returned_status:
  assumes "process_file_task pd env request w = Inr w'"
  shows "task_field (new_task_id env) ''status'' w' = Some (VStr ''completed'')
       \<or> task_field (new_task_id env) ''status'' w' = Some (VStr ''error'')"
proof (cases rule: ingest_cases [where env = env and request = request and pd = pd and w = w])
  case (set_fails e)
  with assms show ?thesis
    by (auto simp: ingest_defs task_field_def map_of_py_update split: option.splits node.splits)
next
  case scratch_is_dir
  with assms show ?thesis
    by (auto simp: ingest_defs task_field_def map_of_py_update split: option.splits node.splits)
next
  case (fetch_fails e left_behind)
  with assms show ?thesis
    by (auto simp: ingest_defs task_field_def map_of_py_update split: option.splits node.splits)
next
  case (read_fails e)
  with assms show ?thesis
    by (auto simp: ingest_defs parsed_def task_field_def map_of_py_update split: option.splits node.splits)
next
  case (convert_fails e df)
  with assms show ?thesis
    by (auto simp: ingest_defs parsed_def task_field_def map_of_py_update split: option.splits node.splits)
next
  case (commit_fails e df out)
  with assms show ?thesis
    by (auto simp: ingest_defs parsed_def task_field_def map_of_py_update split: option.splits node.splits)
next
  case (complete_fails e df out)
  with assms show ?thesis
    by (auto simp: ingest_defs parsed_def task_field_def map_of_py_update split: option.splits node.splits)
next
  case (completes df out)
  with assms show ?thesis
    by (auto simp: ingest_defs parsed_def task_field_def map_of_py_update split: option.splits node.splits)
qed

lemma one_transition:
  assumes "task_set env = None"
  shows "processing_tasks (final_world (process_file_task pd env request w)) (new_task_id env)
           = Some (task_data request)
         \<and> \<not> returned (process_file_task pd env request w) \<and> error_update env \<noteq> None
       \<or> (\<exists>n. processing_tasks (final_world (process_file_task pd env request w)) (new_task_id env)
           = Some (completed_doc request n))
       \<or> (\<exists>e. processing_tasks (final_world (process_file_task pd env request w)) (new_task_id env)
           = Some (error_doc request e))"
proof (cases rule: ingest_cases [where env = env and request = request and pd = pd and w = w])
  case (set_fails e)
  with assms show ?thesis by simp
next
  case scratch_is_dir
  then show ?thesis
    by (auto simp: ingest_defs final_world_def returned_def completed_doc_def error_doc_def
             split: option.splits node.splits)
next
  case (fetch_fails e left_behind)
  then show ?thesis
    by (auto simp: ingest_defs final_world_def returned_def completed_doc_def error_doc_def
             split: option.splits node.splits)
next
  case (read_fails e)
  then show ?thesis
    by (auto simp: ingest_defs parsed_def final_world_def returned_def completed_doc_def
                   error_doc_def split: option.splits node.splits)
next
  case (convert_fails e df)
  then show ?thesis
    by (auto simp: ingest_defs parsed_def final_world_def returned_def completed_doc_def
                   error_doc_def split: option.splits node.splits)
next
  case (commit_fails e df out)
  then show ?thesis
    by (auto simp: ingest_defs parsed_def final_world_def returned_def completed_doc_def
                   error_doc_def split: option.splits node.splits)
next
  case (complete_fails e df out)
  then show ?thesis
    by (auto simp: ingest_defs parsed_def final_world_def returned_def completed_doc_def
                   error_doc_def split: option.splits node.splits)
next
  case (completes df out)
  then show ?thesis
    by (auto simp: ingest_defs parsed_def final_world_def returned_def completed_doc_def
                   error_doc_def split: option.splits node.splits)
qed

text \<open>
  A directory at the scratch path: the download cannot open it, and \<^verbatim>\<open>os.remove\<close> in
  the \<^verbatim>\<open>finally\<close> clause raises, so an exception leaves the function whatever the
  other calls do. The file names \<^verbatim>\<open>''\<close> and \<^verbatim>\<open>'.'\<close> are such requests.
\<close>

lemma directory_at_scratch_path_raises:
  assumes "node_at w (temp_path request) = Some Directory"
  shows "\<not> returned (process_file_task pd env request w)"
proof (cases "task_set env")
  case None
  with assms show ?thesis
    by (auto simp: ingest_defs returned_def split: option.splits node.splits)
next
  case (Some e)
  with assms show ?thesis
    by (auto simp: ingest_defs returned_def split: option.splits node.splits)
qed

lemma empty_file_name_raises:
  "\<not> returned (process_file_task pd env (request\<lparr>fileName := []\<rparr>) w)"
  "\<not> returned (process_file_task pd env (request\<lparr>fileName := ''.''\<rparr>) w)"
  by (simp_all add: directory_at_scratch_path_raises node_at_def names_scratch_dir_def
        temp_path_def)

lemma returns_when_ledger_up:
  assumes "task_set env = None" "error_update env = None"
    and "node_at w (temp_path request) \<noteq> Some Directory"
  shows "returned (process_file_task pd env request w)"
proof (cases rule: ingest_cases [where env = env and request = request and pd = pd and w = w])
  case (set_fails e)
  with assms show ?thesis by simp
next
  case scratch_is_dir
  with assms show ?thesis by (simp add: ingest_defs returned_def)
next
  case (fetch_fails e left_behind)
  with assms show ?thesis by (simp add: ingest_defs returned_def)
next
  case (read_fails e)
  with assms show ?thesis by (simp add: ingest_defs parsed_def returned_def)
next
  case (convert_fails e df)
  with assms show ?thesis by (simp add: ingest_defs parsed_def returned_def)
next
  case (commit_fails e df out)
  with assms show ?thesis by (simp add: ingest_defs parsed_def returned_def)
next
  case (complete_fails e df out)
  with assms show ?thesis by (simp add: ingest_defs parsed_def returned_def)
next
  case (completes df out)
  with assms show ?thesis
    by (simp add: ingest_defs parsed_def returned_def split: option.splits node.splits)
qed

lemma status_completed_doc:
  "map_of (completed_doc request n) ''status'' = Some (VStr ''completed'')"
  by (simp add: completed_doc_def map_of_py_update)

lemma status_error_doc: "map_of (error_doc request e) ''status'' = Some (VStr ''error'')"
  by (simp add: error_doc_def map_of_py_update)

lemma terminal_when_ledger_up:
  assumes "task_set env = None" "error_update env = None"
  shows "task_field (new_task_id env) ''status'' (final_world (process_file_task pd env request w))
           = Some (VStr ''completed'')
       \<or> task_field (new_task_id env) ''status'' (final_world (process_file_task pd env request w))
           = Some (VStr ''error'')"
proof -
  from one_transition [OF assms(1), of pd request w] assms(2)
  consider n where
      "processing_tasks (final_world (process_file_task pd env request w)) (new_task_id env)
       = Some (completed_doc request n)"
    | e where
      "processing_tasks (final_world (process_file_task pd env request w)) (new_task_id env)
       = Some (error_doc request e)"
    by auto
  then show ?thesis
  proof cases
    case 1
    then show ?thesis by (simp add: task_field_def status_completed_doc)
  next
    case 2
    then show ?thesis by (simp add: task_field_def status_error_doc)
  qed
qed

text \<open>
  C2, as the claim states it, fails: in a run whose download raises and whose error
  update raises too, the exception of that update leaves the function and the task
  still has status \<^verbatim>\<open>processing\<close>.
\<close>

theorem C2_error_update_raises_stuck:
  "\<not> returned run_stuck
   \<and> task_field ''task1'' ''status'' (final_world run_stuck) = Some (VStr ''processing'')"
  by (simp add: run_stuck_def env_stuck_def env_fetch_fails_def env_ok_def request_a_def
        world0_def ingest_defs node_at_def names_scratch_dir_def temp_path_def returned_def
        final_world_def task_field_def task_data_def)

text \<open>
  C2, amended. The task starts as \<^verbatim>\<open>processing\<close> and its document changes by one
  update at most: it ends as the created document with the completion fields or with
  the error fields, or as it was created. Its status is \<^verbatim>\<open>completed\<close> or \<^verbatim>\<open>error\<close>
  whenever \<open>process_file_task\<close> returns, and, however the function is left, whenever
  the task was created and the update that records the error is accepted, whichever
  call raised. The status is still \<^verbatim>\<open>processing\<close> only when the error update
  itself raised, and then the function does not return.
\<close>

theorem C2_terminal_status:
  "(\<forall>w'. process_file_task pd env request w = Inr w' \<longrightarrow>
         task_field (new_task_id env) ''status'' w' = Some (VStr ''completed'')
       \<or> task_field (new_task_id env) ''status'' w' = Some (VStr ''error''))
   \<and> (task_set env = None \<and> error_update env = None \<longrightarrow>
         task_field (new_task_id env) ''status'' (final_world (process_file_task pd env request w))
           = Some (VStr ''completed'')
       \<or> task_field (new_task_id env) ''status'' (final_world (process_file_task pd env request w))
           = Some (VStr ''error''))
   \<and> map_of (task_data request) ''status'' = Some (VStr ''processing'')
   \<and> (task_set env = None \<longrightarrow>
        processing_tasks (final_world (process_file_task pd env request w)) (new_task_id env)
          = Some (task_data request)
        \<and> \<not> returned (process_file_task pd env request w) \<and> error_update env \<noteq> None
      \<or> (\<exists>n. processing_tasks (final_world (process_file_task pd env request w)) (new_task_id env)
          = Some (completed_doc request n))
      \<or> (\<exists>e. processing_tasks (final_world (process_file_task pd env request w)) (new_task_id env)
          = Some (error_doc request e)))"
  using returned_status [of pd env request w] terminal_when_ledger_up [of env pd request w]
    one_transition [of env pd request w] task_data_status [of request]
  by blast

lemma app_doc_source: "map_of (app_doc request ref item) ''sourceFileId'' = Some (VStr ref)"
  by (simp add: app_doc_def map_of_py_update)

lemma length_to_dict: "length (to_dict df) = nrows df"
  by (simp add: to_dict_def)

lemma nrows_setitem: "nrows (setitem df name col) = nrows df"
  by (simp add: setitem_def)

lemma nrows_apply_business_rules:
  "apply_business_rules pd df cat = Inr df' \<Longrightarrow> nrows df' = nrows df"
  by (auto simp: apply_business_rules_def Let_def fillna_def nrows_setitem
           split: if_splits sum.splits)

lemma nrows_clean_headers: "clean_headers df = Inr df' \<Longrightarrow> nrows df' = nrows df"
  by (auto simp: clean_headers_def split: sum.splits)

lemma nrows_DataFrame: "nrows (DataFrame pd raw) = length raw"
  by (simp add: DataFrame_def)

lemma length_process:
  assumes "process pd raw cat = Inr out"
  shows "length out = length raw"
  using assms nrows_clean_headers nrows_apply_business_rules nrows_DataFrame [of pd raw]
  by (fastforce simp: process_def length_to_dict split: sum.splits)

lemma process_no_rule:
  assumes "raw \<noteq> []" "cat \<noteq> ''financial''" "cat \<noteq> ''inventory''"
  shows "\<exists>out. process pd raw cat = Inr out"
  using assms
  by (simp add: process_def DataFrame_def clean_headers_def str_accessor_def
        apply_business_rules_def Let_def)

lemma ingest_completes:
  assumes "task_set env = None" "download_to_filename env = Inr ()"
    and "node_at w (temp_path request) \<noteq> Some Directory"
    and "parsed env request = Inr df"
    and "process pd (to_dict df) (category request) = Inr out"
    and "batch_commit env = None" "completed_update env = None"
  shows "returned (process_file_task pd env request w)
       \<and> task_field (new_task_id env) ''status'' (final_world (process_file_task pd env request w))
           = Some (VStr ''completed'')
       \<and> task_field (new_task_id env) ''recordCount'' (final_world (process_file_task pd env request w))
           = Some (VNum (Fin (of_nat (length out))))
       \<and> published w (final_world (process_file_task pd env request w))
           = map (app_doc request (new_task_id env)) (take 400 out)"
  using assms not_directory_name [OF assms(3)]
  by (auto simp: ingest_defs parsed_def returned_def final_world_def task_field_def
                 map_of_py_update published_def split: option.splits node.splits)

lemma returned_final: "returned r \<Longrightarrow> r = Inr (final_world r)"
  by (auto simp: returned_def final_world_def split: sum.splits)

lemma big_converts:
  "\<exists>out. process pandas2 (to_dict \<lparr>columns = Index [''sku''],
                 data = [replicate 401 (VStr ''x'')], nrows = 401\<rparr>) ''catalog'' = Inr out
         \<and> length out = 401"
proof -
  let ?raw = "to_dict \<lparr>columns = Index [''sku''], data = [replicate 401 (VStr ''x'')], nrows = 401\<rparr>"
  have "length ?raw = 401" by (simp add: length_to_dict)
  then have "?raw \<noteq> []" by (metis length_0_conv zero_neq_numeral)
  then obtain out where out: "process pandas2 ?raw ''catalog'' = Inr out"
    using process_no_rule [of ?raw "''catalog''" pandas2] by auto
  with \<open>length ?raw = 401\<close> length_process [OF out] show ?thesis by simp
qed

lemma to_dict_amounts:
  "to_dict \<lparr>columns = Index [''Amount''], data = [[VStr ''12.5'', VStr ''bad'']], nrows = 2\<rparr>
   = [[(''Amount'', VStr ''12.5'')], [(''Amount'', VStr ''bad'')]]"
  by (simp add: to_dict_def py_dict_def py_update_def eval_nat_numeral)

lemma process_amounts:
  "process pandas2 [[(''Amount'', VStr ''12.5'')], [(''Amount'', VStr ''bad'')]] ''financial''
   = Inr [[(''amount'', VNum (Fin (25 / 2)))], [(''amount'', VNum (Fin 0))]]"
  by (simp add: engine_defs pandas2_def decimal_literal_12_5 decimal_literal_bad)


lemma steps_complete:
  assumes "task_set env = None" "download_to_filename env = Inr ()"
    and "node_at w (temp_path request) \<noteq> Some Directory"
    and "parsed env request = Inr df"
    and "process pd (to_dict df) (category request) = Inr out"
    and "batch_commit env = None" "completed_update env = None"
  shows "\<exists>we. steps_A_to_E pd env request w = Inr (new_task_id env, we)"
  using assms
  by (simp add: steps_A_to_E_def step_A_def step_B_def step_C_def step_D_def step_E_def
        doc_set_def doc_update_def py_print_def parsed_def node_at_updates Let_def)

lemma env_ok_facts:
  "parsed env_ok request_a = Inr \<lparr>columns = Index [''Amount''],
          data = [[VStr ''12.5'', VStr ''bad'']], nrows = 2\<rparr>"
  "category request_a = ''financial''"
  "task_set env_ok = None" "download_to_filename env_ok = Inr ()"
  "batch_commit env_ok = None" "completed_update env_ok = None"
  "new_task_id env_ok = ''task1''"
  "node_at world0 (temp_path request_a) \<noteq> Some Directory"
  by (simp_all add: parsed_def env_ok_def request_a_def endswith_def node_at_def
        names_scratch_dir_def temp_path_def world0_def)

lemma run_a_facts:
  "returned run_a
   \<and> task_field ''task1'' ''status'' (final_world run_a) = Some (VStr ''completed'')
   \<and> task_field ''task1'' ''recordCount'' (final_world run_a) = Some (VNum (Fin 2))
   \<and> published world0 (final_world run_a)
       = map (app_doc request_a ''task1'')
           [[(''amount'', VNum (Fin (25 / 2)))], [(''amount'', VNum (Fin 0))]]"
  using ingest_completes [where env = env_ok and request = request_a and pd = pandas2
      and out = "[[(''amount'', VNum (Fin (25 / 2)))], [(''amount'', VNum (Fin 0))]]"
      and w = world0] env_ok_facts
  by (simp add: to_dict_amounts process_amounts run_a_def)

section \<open>Provenance and record count\<close>

text \<open>
  C1, as the claim states it, fails: a run that converts 401 rows completes, records
  401 as \<^verbatim>\<open>recordCount\<close> and publishes 400 records.
\<close>

theorem C1_count_differs_beyond_400:
  "returned run_big
   \<and> task_field ''task1'' ''status'' (final_world run_big) = Some (VStr ''completed'')
   \<and> task_field ''task1'' ''recordCount'' (final_world run_big) = Some (VNum (Fin 401))
   \<and> length (published world0 (final_world run_big)) = 400"
proof -
  obtain out where out:
    "process pandas2 (to_dict \<lparr>columns = Index [''sku''],
        data = [replicate 401 (VStr ''x'')], nrows = 401\<rparr>) ''catalog'' = Inr out"
    and len: "length out = 401"
    using big_converts by blast
  have "parsed env_big request_c = Inr \<lparr>columns = Index [''sku''],
        data = [replicate 401 (VStr ''x'')], nrows = 401\<rparr>"
    by (simp add: parsed_def env_big_def env_ok_def request_c_def endswith_def)
  moreover have "category request_c = ''catalog''" by (simp add: request_c_def)
  moreover have "task_set env_big = None" "download_to_filename env_big = Inr ()"
    "batch_commit env_big = None" "completed_update env_big = None"
    "new_task_id env_big = ''task1''"
    by (simp_all add: env_big_def env_ok_def)
  moreover have "node_at world0 (temp_path request_c) \<noteq> Some Directory"
    by (simp add: node_at_def names_scratch_dir_def temp_path_def request_c_def world0_def)
  ultimately show ?thesis
    using ingest_completes [where env = env_big and request = request_c and pd = pandas2
        and out = out and w = world0] out len
    by (simp add: run_big_def)
qed

text \<open>
  C1, amended. When \<open>process_file_task\<close> returns with its task \<^verbatim>\<open>completed\<close>, the
  records it added to \<^verbatim>\<open>app_data\<close> all carry the task's id as \<^verbatim>\<open>sourceFileId\<close>, and
  their number is the smaller of 400 and the \<^verbatim>\<open>recordCount\<close> \<open>n\<close> recorded on the
  task: it equals \<open>n\<close> exactly when \<open>n\<close> is at most 400.
\<close>

theorem C1_provenance_and_count:
  assumes "process_file_task pd env request w = Inr w'"
    and "task_field (new_task_id env) ''status'' w' = Some (VStr ''completed'')"
  shows "\<exists>n. task_field (new_task_id env) ''recordCount'' w' = Some (VNum (Fin (of_nat n)))
           \<and> app_data w' = app_data w @ published w w'
           \<and> length (published w w') = min n 400
           \<and> (\<forall>d \<in> set (published w w'). map_of d ''sourceFileId'' = Some (VStr (new_task_id env)))"
proof (cases rule: ingest_cases [where env = env and request = request and pd = pd and w = w])
  case (set_fails e)
  with assms show ?thesis
    by (auto simp: ingest_defs task_field_def map_of_py_update split: option.splits node.splits)
next
  case scratch_is_dir
  with assms show ?thesis
    by (auto simp: ingest_defs task_field_def map_of_py_update split: option.splits node.splits)
next
  case (fetch_fails e left_behind)
  with assms show ?thesis
    by (auto simp: ingest_defs task_field_def map_of_py_update split: option.splits node.splits)
next
  case (read_fails e)
  with assms show ?thesis
    by (auto simp: ingest_defs parsed_def task_field_def map_of_py_update split: option.splits node.splits)
next
  case (convert_fails e df)
  with assms show ?thesis
    by (auto simp: ingest_defs parsed_def task_field_def map_of_py_update split: option.splits node.splits)
next
  case (commit_fails e df out)
  with assms show ?thesis
    by (auto simp: ingest_defs parsed_def task_field_def map_of_py_update split: option.splits node.splits)
next
  case (complete_fails e df out)
  with assms show ?thesis
    by (auto simp: ingest_defs parsed_def task_field_def map_of_py_update split: option.splits node.splits)
next
  case (completes df out)
  with assms show ?thesis
    by (auto simp: ingest_defs parsed_def task_field_def map_of_py_update published_def
                   app_doc_source min_def split: option.splits node.splits intro!: exI [of _ "length out"])
qed


theorem C1_provenance_and_count_witness:
  "process_file_task pandas2 env_ok request_a world0 = Inr (final_world run_a)
   \<and> task_field (new_task_id env_ok) ''status'' (final_world run_a) = Some (VStr ''completed'')
   \<and> (\<exists>n. task_field (new_task_id env_ok) ''recordCount'' (final_world run_a)
              = Some (VNum (Fin (of_nat n)))
          \<and> app_data (final_world run_a) = app_data world0 @ published world0 (final_world run_a)
          \<and> length (published world0 (final_world run_a)) = min n 400
          \<and> (\<forall>d \<in> set (published world0 (final_world run_a)).
                map_of d ''sourceFileId'' = Some (VStr (new_task_id env_ok))))"
proof -
  have r: "process_file_task pandas2 env_ok request_a world0 = Inr (final_world run_a)"
    using run_a_facts returned_final [of run_a] by (simp add: run_a_def)
  have s: "task_field (new_task_id env_ok) ''status'' (final_world run_a)
           = Some (VStr ''completed'')"
    using run_a_facts env_ok_facts by simp
  show ?thesis
    using r s C1_provenance_and_count [OF r s] by blast
qed

section \<open>Terminal status, concretely\<close>

theorem C2_terminal_status_witness:
  "task_set env_fetch_fails = None \<and> error_update env_fetch_fails = None
   \<and> node_at world0 (temp_path request_a) \<noteq> Some Directory
   \<and> returned run_fetch_fails
   \<and> process_file_task pandas2 env_fetch_fails request_a world0 = Inr (final_world run_fetch_fails)
   \<and> (task_field (new_task_id env_fetch_fails) ''status'' (final_world run_fetch_fails)
         = Some (VStr ''completed'')
       \<or> task_field (new_task_id env_fetch_fails) ''status'' (final_world run_fetch_fails)
         = Some (VStr ''error''))"
proof -
  have e: "task_set env_fetch_fails = None" "error_update env_fetch_fails = None"
    by (simp_all add: env_fetch_fails_def env_ok_def)
  note d = env_ok_facts(8)
  have ret: "returned run_fetch_fails"
    using returns_when_ledger_up [OF e d, of pandas2] by (simp add: run_fetch_fails_def)
  then have r: "process_file_task pandas2 env_fetch_fails request_a world0
                = Inr (final_world run_fetch_fails)"
    using returned_final [of run_fetch_fails] by (simp add: run_fetch_fails_def)
  show ?thesis
    using e d ret r C2_terminal_status [of pandas2 env_fetch_fails request_a world0] by blast
qed

section \<open>A failed fetch\<close>

lemma fetch_failureD:
  assumes "fetch_failure env request w = Some e"
  shows "node_at w (temp_path request) = Some Directory \<and> e = is_a_directory (temp_path request)
       \<or> node_at w (temp_path request) \<noteq> Some Directory
         \<and> (\<exists>left_behind. download_to_filename env = Inl (e, left_behind))"
  using assms by (auto simp: fetch_failure_def split: if_splits sum.splits)

text \<open>
  C7, as the claim states it, fails twice. The error message is the text of the
  exception, whatever it is: a fetch that raises an exception without text ends with
  the task in status \<^verbatim>\<open>error\<close> and an empty error message. And the status is
  recorded by an update that can raise: when it does, after a failed fetch, the task
  still has status \<^verbatim>\<open>processing\<close>.
\<close>

theorem C7_silent_or_unrecorded_fetch_failure:
  "returned run_silent_fetch
   \<and> task_field ''task1'' ''status'' (final_world run_silent_fetch) = Some (VStr ''error'')
   \<and> task_field ''task1'' ''errorMessage'' (final_world run_silent_fetch) = Some (VStr [])
   \<and> \<not> returned run_stuck
   \<and> task_field ''task1'' ''status'' (final_world run_stuck) = Some (VStr ''processing'')"
  by (simp add: run_silent_fetch_def env_silent_fetch_def run_stuck_def env_stuck_def
        env_fetch_fails_def env_ok_def request_a_def world0_def ingest_defs node_at_def
        names_scratch_dir_def temp_path_def returned_def final_world_def task_field_def
        task_data_def map_of_py_update)

text \<open>
  C7, amended. When the task was created and the fetch fails with the exception \<open>e\<close>
  (the download raises, or the scratch path is a directory and cannot be opened), no
  record is added to \<^verbatim>\<open>app_data\<close>, and no file is left at the scratch path when the
  function is left: nothing at all is there unless the path is a directory. When the
  update that records the error is accepted, the task ends in status \<^verbatim>\<open>error\<close>
  with \<^verbatim>\<open>str(e)\<close> as its error message, which is empty exactly when the exception
  has no text. When that update raises, the task keeps the status \<^verbatim>\<open>processing\<close>
  and the function does not return.
\<close>

theorem C7_fetch_failure:
  assumes "task_set env = None"
    and "fetch_failure env request w = Some e"
  shows "app_data (final_world (process_file_task pd env request w)) = app_data w
       \<and> published w (final_world (process_file_task pd env request w)) = []
       \<and> node_at (final_world (process_file_task pd env request w)) (temp_path request)
           \<noteq> Some RegularFile
       \<and> (node_at w (temp_path request) \<noteq> Some Directory \<longrightarrow>
            node_at (final_world (process_file_task pd env request w)) (temp_path request) = None)
       \<and> (error_update env = None \<longrightarrow>
            task_field (new_task_id env) ''status'' (final_world (process_file_task pd env request w))
              = Some (VStr ''error'')
          \<and> task_field (new_task_id env) ''errorMessage''
               (final_world (process_file_task pd env request w)) = Some (VStr (str e))
          \<and> (task_field (new_task_id env) ''errorMessage''
                (final_world (process_file_task pd env request w)) = Some (VStr []))
              = (str e = []))
       \<and> (error_update env \<noteq> None \<longrightarrow>
            \<not> returned (process_file_task pd env request w)
          \<and> task_field (new_task_id env) ''status'' (final_world (process_file_task pd env request w))
              = Some (VStr ''processing''))"
  using fetch_failureD [OF assms(2)]
proof
  assume "node_at w (temp_path request) = Some Directory \<and> e = is_a_directory (temp_path request)"
  with assms(1) show ?thesis
    by (auto simp: ingest_defs final_world_def returned_def task_field_def map_of_py_update
                   published_def task_data_status split: option.splits node.splits)
next
  assume a: "node_at w (temp_path request) \<noteq> Some Directory
         \<and> (\<exists>left_behind. download_to_filename env = Inl (e, left_behind))"
  then have "\<not> names_scratch_dir (temp_path request)" using not_directory_name by blast
  with a assms(1) show ?thesis
    by (auto simp: ingest_defs final_world_def returned_def task_field_def map_of_py_update
                   published_def task_data_status split: option.splits node.splits)
qed

theorem C7_fetch_failure_witness:
  "task_set env_fetch_fails = None
   \<and> fetch_failure env_fetch_fails request_a world0
       = Some (Failure ''404 No such object: uploads/alice/report.csv'')
   \<and> app_data (final_world run_fetch_fails) = app_data world0
   \<and> node_at (final_world run_fetch_fails) (temp_path request_a) = None
   \<and> task_field ''task1'' ''status'' (final_world run_fetch_fails) = Some (VStr ''error'')
   \<and> task_field ''task1'' ''errorMessage'' (final_world run_fetch_fails)
       = Some (VStr ''404 No such object: uploads/alice/report.csv'')"
proof -
  have a: "task_set env_fetch_fails = None" "error_update env_fetch_fails = None"
    "new_task_id env_fetch_fails = ''task1''"
    by (simp_all add: env_fetch_fails_def env_ok_def)
  have f: "fetch_failure env_fetch_fails request_a world0
           = Some (Failure ''404 No such object: uploads/alice/report.csv'')"
    using env_ok_facts(8) by (simp add: fetch_failure_def env_fetch_fails_def env_ok_def)
  show ?thesis
    using C7_fetch_failure [OF a(1) f, of pandas2] a f env_ok_facts(8)
    by (simp add: run_fetch_fails_def)
qed

section \<open>A failed notification\<close>

lemma steps_ignore_send_each:
  "step_A (env\<lparr>messaging_send := x\<rparr>) request ref w = step_A env request ref w"
  "step_B (env\<lparr>messaging_send := x\<rparr>) request w = step_B env request w"
  "step_C pd (env\<lparr>messaging_send := x\<rparr>) request w = step_C pd env request w"
  "step_D (env\<lparr>messaging_send := x\<rparr>) request ref out w = step_D env request ref out w"
  "step_E (env\<lparr>messaging_send := x\<rparr>) ref out w = step_E env ref out w"
  by (simp_all add: step_A_def step_B_def step_C_def step_D_def step_E_def)

lemma steps_ignore_send:
  "steps_A_to_E pd (env\<lparr>messaging_send := x\<rparr>) request w = steps_A_to_E pd env request w"
  by (simp add: steps_A_to_E_def steps_ignore_send_each
        cong: sum.case_cong prod.case_cong)

lemma node_at_step_F: "node_at (step_F env request ref w) p = node_at w p"
  by (simp add: step_F_def py_print_def node_at_updates split: option.splits)

lemma handler_ignores_send:
  "except_handler (env\<lparr>messaging_send := x\<rparr>) e ref w = except_handler env e ref w"
  by (simp add: except_handler_def cong: option.case_cong)

lemma step_F_frame:
  "processing_tasks (step_F env request ref w) = processing_tasks w
   \<and> app_data (step_F env request ref w) = app_data w
   \<and> tmp_files (step_F env request ref w) = tmp_files w"
  by (simp add: step_F_def py_print_def split: option.splits node.splits)

lemma step_F_failure:
  "messaging_send env = Some err \<Longrightarrow>
   step_F env request ref w = w\<lparr>console := console w @ [NotificationError err]\<rparr>"
  by (simp add: step_F_def py_print_def)

lemma send_independent:
  "processing_tasks (final_world (process_file_task pd (env\<lparr>messaging_send := x\<rparr>) request w))
     = processing_tasks (final_world (process_file_task pd env request w))
   \<and> app_data (final_world (process_file_task pd (env\<lparr>messaging_send := x\<rparr>) request w))
     = app_data (final_world (process_file_task pd env request w))
   \<and> tmp_files (final_world (process_file_task pd (env\<lparr>messaging_send := x\<rparr>) request w))
     = tmp_files (final_world (process_file_task pd env request w))
   \<and> returned (process_file_task pd (env\<lparr>messaging_send := x\<rparr>) request w)
     = returned (process_file_task pd env request w)"
  by (simp add: process_file_task_def steps_ignore_send handler_ignores_send step_F_frame
        finally_clause_def node_at_step_F final_world_def returned_def cleanup_def
        split: sum.splits prod.splits option.splits node.splits)

lemma completed_before_notification:
  assumes "steps_A_to_E pd env request w = Inr (ref, we)"
  shows "ref = new_task_id env
       \<and> task_field ref ''status'' we = Some (VStr ''completed'')
       \<and> task_field ref ''notificationSent'' we = Some (VBool True)
       \<and> (\<exists>n. task_field ref ''recordCount'' we = Some (VNum (Fin (of_nat n))))
       \<and> process_file_task pd env request w = Inr (cleanup request (step_F env request ref we))"
proof (cases rule: ingest_cases [where env = env and request = request and pd = pd and w = w])
  case (set_fails e)
  with assms show ?thesis by (simp add: ingest_defs)
next
  case scratch_is_dir
  with assms show ?thesis by (simp add: ingest_defs)
next
  case (fetch_fails e left_behind)
  with assms show ?thesis by (simp add: ingest_defs)
next
  case (read_fails e)
  with assms show ?thesis by (simp add: ingest_defs parsed_def)
next
  case (convert_fails e df)
  with assms show ?thesis by (simp add: ingest_defs parsed_def)
next
  case (commit_fails e df out)
  with assms show ?thesis by (simp add: ingest_defs parsed_def)
next
  case (complete_fails e df out)
  with assms show ?thesis by (simp add: ingest_defs parsed_def)
next
  case (completes df out)
  with assms show ?thesis
    by (auto simp: ingest_defs parsed_def task_field_def map_of_py_update split: option.splits node.splits)
qed

lemma task_field_after_F:
  "task_field ref k (final_world (Inr (cleanup request (step_F env request ref' we))))
   = task_field ref k we"
  by (simp add: task_field_def final_world_def cleanup_def step_F_frame)

text \<open>
  C8. When the steps before the notification have succeeded, the task already has
  status \<^verbatim>\<open>completed\<close>, its record count and \<^verbatim>\<open>notificationSent\<close> true in the world
  the notification starts from. The notification changes neither the ledger nor the
  published records; when the send raises, the exception is caught and printed,
  nothing else changes, and the function returns with those three fields as they
  were. For every outcome of the send the function leaves the same ledger, the same
  records and the same scratch directory, and returns or raises alike.
\<close>

theorem C8_notification_failure_harmless:
  "(\<forall>ref we. steps_A_to_E pd env request w = Inr (ref, we) \<longrightarrow>
        task_field ref ''status'' we = Some (VStr ''completed'')
      \<and> task_field ref ''notificationSent'' we = Some (VBool True)
      \<and> (\<exists>n. task_field ref ''recordCount'' we = Some (VNum (Fin (of_nat n))))
      \<and> process_file_task pd env request w = Inr (cleanup request (step_F env request ref we))
      \<and> (\<forall>k. task_field ref k (final_world (process_file_task pd env request w))
              = task_field ref k we)
      \<and> app_data (final_world (process_file_task pd env request w)) = app_data we
      \<and> (\<forall>err. messaging_send env = Some err \<longrightarrow>
            step_F env request ref we = we\<lparr>console := console we @ [NotificationError err]\<rparr>))
   \<and> (\<forall>x. processing_tasks (final_world (process_file_task pd (env\<lparr>messaging_send := x\<rparr>) request w))
            = processing_tasks (final_world (process_file_task pd env request w))
          \<and> app_data (final_world (process_file_task pd (env\<lparr>messaging_send := x\<rparr>) request w))
            = app_data (final_world (process_file_task pd env request w))
          \<and> tmp_files (final_world (process_file_task pd (env\<lparr>messaging_send := x\<rparr>) request w))
            = tmp_files (final_world (process_file_task pd env request w))
          \<and> returned (process_file_task pd (env\<lparr>messaging_send := x\<rparr>) request w)
            = returned (process_file_task pd env request w))"
proof -
  have "task_field ref ''status'' we = Some (VStr ''completed'')
      \<and> task_field ref ''notificationSent'' we = Some (VBool True)
      \<and> (\<exists>n. task_field ref ''recordCount'' we = Some (VNum (Fin (of_nat n))))
      \<and> process_file_task pd env request w = Inr (cleanup request (step_F env request ref we))
      \<and> (\<forall>k. task_field ref k (final_world (process_file_task pd env request w))
              = task_field ref k we)
      \<and> app_data (final_world (process_file_task pd env request w)) = app_data we
      \<and> (\<forall>err. messaging_send env = Some err \<longrightarrow>
            step_F env request ref we = we\<lparr>console := console we @ [NotificationError err]\<rparr>)"
    if "steps_A_to_E pd env request w = Inr (ref, we)" for ref we
  proof -
    note c = completed_before_notification [OF that]
    have "app_data (final_world (process_file_task pd env request w)) = app_data we"
      using c by (simp add: final_world_def cleanup_def step_F_frame)
    moreover have "\<forall>k. task_field ref k (final_world (process_file_task pd env request w))
              = task_field ref k we"
      using c by (simp add: task_field_after_F)
    ultimately show ?thesis using c step_F_failure by blast
  qed
  then show ?thesis using send_independent by blast
qed

theorem C8_notification_failure_harmless_witness:
  "messaging_send env_push_fails = Some (Failure ''push channel unavailable'')
   \<and> returned run_push_fails
   \<and> task_field ''task1'' ''status'' (final_world run_push_fails) = Some (VStr ''completed'')
   \<and> task_field ''task1'' ''notificationSent'' (final_world run_push_fails) = Some (VBool True)
   \<and> processing_tasks (final_world run_push_fails) = processing_tasks (final_world run_a)
   \<and> app_data (final_world run_push_fails) = app_data (final_world run_a)"
proof -
  have f: "parsed env_push_fails request_a = parsed env_ok request_a"
    "task_set env_push_fails = None" "download_to_filename env_push_fails = Inr ()"
    "batch_commit env_push_fails = None" "completed_update env_push_fails = None"
    "new_task_id env_push_fails = ''task1''"
    "messaging_send env_push_fails = Some (Failure ''push channel unavailable'')"
    "env_push_fails = env_ok\<lparr>messaging_send := Some (Failure ''push channel unavailable'')\<rparr>"
    by (simp_all add: parsed_def env_push_fails_def env_ok_def)
  obtain we where we: "steps_A_to_E pandas2 env_push_fails request_a world0 = Inr (''task1'', we)"
    using steps_complete [where env = env_push_fails and request = request_a and pd = pandas2
        and out = "[[(''amount'', VNum (Fin (25 / 2)))], [(''amount'', VNum (Fin 0))]]"
        and w = world0]
      f env_ok_facts
    by (auto simp: to_dict_amounts process_amounts)
  note t = C8_notification_failure_harmless [of pandas2 env_push_fails request_a world0]
  have "returned run_push_fails"
    using t we by (simp add: run_push_fails_def returned_def)
  moreover have "task_field ''task1'' ''status'' (final_world run_push_fails)
                 = Some (VStr ''completed'')"
    "task_field ''task1'' ''notificationSent'' (final_world run_push_fails) = Some (VBool True)"
    using t we unfolding run_push_fails_def by metis+
  moreover have "processing_tasks (final_world run_push_fails)
                 = processing_tasks (final_world run_a)"
    "app_data (final_world run_push_fails) = app_data (final_world run_a)"
    using C8_notification_failure_harmless [of pandas2 env_ok request_a world0] f(8)
    unfolding run_push_fails_def run_a_def by metis+
  ultimately show ?thesis using f(7) by blast
qed

section \<open>The deletion orchestrator\<close>

lemma provenance_inv_world0: "provenance_inv world0"
  by (simp add: provenance_inv_def world0_def)

lemma provenance_invD:
  assumes "provenance_inv w" "d \<in> set (app_data w)"
  shows "\<exists>ref. map_of d ''sourceFileId'' = Some (VStr ref) \<and> processing_tasks w ref \<noteq> None"
proof -
  have c: "(case map_of d ''sourceFileId'' of
           Some (VStr ref) \<Rightarrow> processing_tasks w ref \<noteq> None | _ \<Rightarrow> False)"
    using assms by (simp add: provenance_inv_def list_all_iff)
  show ?thesis
  proof (cases "map_of d ''sourceFileId''")
    case None
    with c show ?thesis by simp
  next
    case (Some v)
    with c show ?thesis by (cases v) simp_all
  qed
qed

lemma provenance_invI:
  assumes "\<And>d. d \<in> set (app_data w) \<Longrightarrow>
             \<exists>ref. map_of d ''sourceFileId'' = Some (VStr ref) \<and> processing_tasks w ref \<noteq> None"
  shows "provenance_inv w"
  unfolding provenance_inv_def list_all_iff
proof
  fix d assume "d \<in> set (app_data w)"
  then obtain ref where "map_of d ''sourceFileId'' = Some (VStr ref)" "processing_tasks w ref \<noteq> None"
    using assms by blast
  then show "case map_of d ''sourceFileId'' of
           Some (VStr ref) \<Rightarrow> processing_tasks w ref \<noteq> None | _ \<Rightarrow> False"
    by simp
qed

lemma orphan_free:
  assumes "provenance_inv w" "processing_tasks w ref = None"
  shows "records_of ref w = []"
proof -
  have "\<not> has_source ref d" if "d \<in> set (app_data w)" for d
    using provenance_invD [OF assms(1) that] assms(2) by (auto simp: has_source_def)
  then show ?thesis by (simp add: records_of_def filter_empty_conv)
qed

lemma delete_absent:
  assumes "processing_tasks w (taskId request) = None"
  shows "processing_tasks (delete_file_task env request w) = processing_tasks w
       \<and> app_data (delete_file_task env request w) = app_data w
       \<and> (task_get env = None \<longrightarrow> delete_file_task env request w = w)"
  using assms by (simp add: delete_file_task_def py_print_def split: option.splits node.splits)

lemma delete_present:
  assumes "processing_tasks w (taskId request) = Some doc"
    and "task_get env = None" "query_stream env = None" "delete_commit env = None"
        "task_delete env = None"
  shows "processing_tasks (delete_file_task env request w) (taskId request) = None
       \<and> records_of (taskId request) (delete_file_task env request w) = []"
  using assms
  by (simp add: delete_file_task_def py_print_def records_of_def Let_def filter_empty_conv)

lemma delete_effect:
  "processing_tasks (delete_file_task env request w) = processing_tasks w
   \<and> set (app_data (delete_file_task env request w)) \<subseteq> set (app_data w)
   \<or> processing_tasks (delete_file_task env request w)
       = (processing_tasks w)(taskId request := None)
     \<and> app_data (delete_file_task env request w)
       = filter (\<lambda>d. \<not> has_source (taskId request) d) (app_data w)"
  by (auto simp: delete_file_task_def py_print_def Let_def split: option.splits node.splits)

lemma provenance_inv_delete:
  assumes "provenance_inv w"
  shows "provenance_inv (delete_file_task env request w)"
proof (rule provenance_invI)
  fix d assume d: "d \<in> set (app_data (delete_file_task env request w))"
  from delete_effect [of env request w] show
    "\<exists>ref. map_of d ''sourceFileId'' = Some (VStr ref)
          \<and> processing_tasks (delete_file_task env request w) ref \<noteq> None"
  proof
    assume "processing_tasks (delete_file_task env request w) = processing_tasks w
       \<and> set (app_data (delete_file_task env request w)) \<subseteq> set (app_data w)"
    then show ?thesis using provenance_invD [OF assms, of d] d by auto
  next
    assume e: "processing_tasks (delete_file_task env request w)
         = (processing_tasks w)(taskId request := None)
       \<and> app_data (delete_file_task env request w)
         = filter (\<lambda>d. \<not> has_source (taskId request) d) (app_data w)"
    with d have "d \<in> set (app_data w)" "\<not> has_source (taskId request) d" by auto
    then show ?thesis using provenance_invD [OF assms, of d] e by (auto simp: has_source_def)
  qed
qed

lemma ingest_effect:
  "(\<forall>k. processing_tasks w k \<noteq> None \<longrightarrow>
        processing_tasks (final_world (process_file_task pd env request w)) k \<noteq> None)
   \<and> (app_data (final_world (process_file_task pd env request w)) = app_data w
      \<or> (\<exists>out. app_data (final_world (process_file_task pd env request w))
              = app_data w @ map (app_doc request (new_task_id env)) (take 400 out))
        \<and> processing_tasks (final_world (process_file_task pd env request w)) (new_task_id env)
            \<noteq> None)"
proof (cases rule: ingest_cases [where env = env and request = request and pd = pd and w = w])
  case (set_fails e)
  then show ?thesis
    by (auto simp: ingest_defs final_world_def split: option.splits node.splits)
next
  case scratch_is_dir
  then show ?thesis
    by (auto simp: ingest_defs final_world_def split: option.splits node.splits)
next
  case (fetch_fails e left_behind)
  then show ?thesis
    by (auto simp: ingest_defs final_world_def split: option.splits node.splits)
next
  case (read_fails e)
  then show ?thesis
    by (auto simp: ingest_defs parsed_def final_world_def split: option.splits node.splits)
next
  case (convert_fails e df)
  then show ?thesis
    by (auto simp: ingest_defs parsed_def final_world_def split: option.splits node.splits)
next
  case (commit_fails e df out)
  then show ?thesis
    by (auto simp: ingest_defs parsed_def final_world_def split: option.splits node.splits)
next
  case (complete_fails e df out)
  then show ?thesis
    by (auto simp: ingest_defs parsed_def final_world_def split: option.splits node.splits)
next
  case (completes df out)
  then show ?thesis
    by (auto simp: ingest_defs parsed_def final_world_def split: option.splits node.splits)
qed

lemma provenance_inv_ingest:
  assumes "provenance_inv w"
  shows "provenance_inv (final_world (process_file_task pd env request w))"
proof (rule provenance_invI)
  let ?w' = "final_world (process_file_task pd env request w)"
  fix d assume d: "d \<in> set (app_data ?w')"
  note e = ingest_effect [of w pd env request]
  show "\<exists>ref. map_of d ''sourceFileId'' = Some (VStr ref) \<and> processing_tasks ?w' ref \<noteq> None"
  proof (cases "d \<in> set (app_data w)")
    case True
    then show ?thesis using provenance_invD [OF assms, of d] e by blast
  next
    case False
    with d e obtain out where
      "d \<in> set (map (app_doc request (new_task_id env)) (take 400 out))"
      "processing_tasks ?w' (new_task_id env) \<noteq> None"
      by auto
    then show ?thesis using app_doc_source by auto
  qed
qed


lemma run_a_records: "length (records_of ''task1'' (final_world run_a)) = 2"
proof -
  have "app_data (final_world run_a) = published world0 (final_world run_a)"
    by (simp add: published_def world0_def)
  then show ?thesis
    using run_a_facts by (simp add: records_of_def has_source_def app_doc_source)
qed

text \<open>
  C3. \<open>delete_file_task\<close> always returns: it catches every exception. In a world
  where every published record names a task of the ledger (the invariant that
  ingestion and deletion keep, and that holds of the empty world), when the store
  accepts the calls of a first deletion of a task id, then after a second deletion of
  the same id no record with that provenance and no task with that id is left,
  whatever the store does in the second; and when the lookup of the second succeeds,
  the second changes nothing at all and prints nothing, the task being absent.
\<close>

theorem C3_delete_twice:
  assumes "provenance_inv w"
    and "task_get env1 = None" "query_stream env1 = None" "delete_commit env1 = None"
        "task_delete env1 = None"
  shows "records_of (taskId request)
           (delete_file_task env2 request (delete_file_task env1 request w)) = []
       \<and> processing_tasks
           (delete_file_task env2 request (delete_file_task env1 request w)) (taskId request) = None
       \<and> (task_get env2 = None \<longrightarrow>
            delete_file_task env2 request (delete_file_task env1 request w)
            = delete_file_task env1 request w)"
proof -
  let ?w1 = "delete_file_task env1 request w"
  have first: "processing_tasks ?w1 (taskId request) = None \<and> records_of (taskId request) ?w1 = []"
  proof (cases "processing_tasks w (taskId request)")
    case None
    then show ?thesis
      using delete_absent [of w request env1] orphan_free [OF assms(1)] assms(2)
      by (simp add: records_of_def)
  next
    case (Some doc)
    then show ?thesis using delete_present assms(2-5) by blast
  qed
  then show ?thesis
    using delete_absent [of ?w1 request env2] by (simp add: records_of_def)
qed



theorem C3_delete_twice_witness:
  "provenance_inv (final_world run_a)
   \<and> length (records_of ''task1'' (final_world run_a)) = 2
   \<and> records_of (taskId delete_task1)
        (delete_file_task delete_ok delete_task1
          (delete_file_task delete_ok delete_task1 (final_world run_a))) = []
   \<and> processing_tasks
        (delete_file_task delete_ok delete_task1
          (delete_file_task delete_ok delete_task1 (final_world run_a))) (taskId delete_task1)
       = None
   \<and> delete_file_task delete_ok delete_task1
        (delete_file_task delete_ok delete_task1 (final_world run_a))
       = delete_file_task delete_ok delete_task1 (final_world run_a)"
proof -
  have inv: "provenance_inv (final_world run_a)"
    unfolding run_a_def by (rule provenance_inv_ingest [OF provenance_inv_world0])
  have ok: "task_get delete_ok = None" "query_stream delete_ok = None"
    "delete_commit delete_ok = None" "task_delete delete_ok = None"
    by (simp_all add: delete_ok_def)
  show ?thesis
    using inv run_a_records C3_delete_twice [OF inv ok, of delete_task1 delete_ok] ok(1)
    by blast
qed

section \<open>The inventory rule\<close>

lemma map_of_rev_unique:
  assumes "k \<in> fst ` set kvs" "\<And>v'. (k, v') \<in> set kvs \<Longrightarrow> v' = v"
  shows "map_of (rev kvs) k = Some v"
proof (cases "map_of (rev kvs) k")
  case None
  then show ?thesis using assms(1) by (simp add: map_of_eq_None_iff)
next
  case (Some v')
  then have "(k, v') \<in> set kvs" using map_of_SomeD [of "rev kvs" k v'] by simp
  then show ?thesis using assms(2) Some by simp
qed

lemma map_of_py_dict: "map_of (py_dict kvs) k = map_of (rev kvs) k"
  by (simp add: py_dict_def map_of_py_update split: option.splits node.splits)

lemma to_dict_nth:
  "i < nrows df \<Longrightarrow>
   to_dict df ! i = py_dict (zip (labels (columns df)) (map (\<lambda>col. col ! i) (data df)))"
  by (simp add: to_dict_def)

lemma filter_zip_maps:
  "map snd (filter (\<lambda>(c, col). c = name) (zip (map f ks) (map g ks)))
   = map g (filter (\<lambda>k. f k = name) ks)"
  by (induction ks) auto

lemma setitem_lookup:
  assumes "length (labels (columns df)) = length (data df)" "i < nrows df"
  shows "map_of (to_dict (setitem df name col) ! i) name = Some (col ! i)"
proof (cases "name \<in> set (labels (columns df))")
  case True
  let ?cs = "labels (columns df)"
  let ?kvs = "zip ?cs (map (\<lambda>c. c ! i)
                 (map (\<lambda>(c, old). if c = name then col else old) (zip ?cs (data df))))"
  have k: "name \<in> fst ` set ?kvs"
  proof -
    from True obtain j where j: "j < length ?cs" "?cs ! j = name"
      by (auto simp: in_set_conv_nth)
    then have "(?cs ! j, (map (\<lambda>c. c ! i)
                 (map (\<lambda>(c, old). if c = name then col else old) (zip ?cs (data df)))) ! j)
               \<in> set ?kvs"
      using assms(1) by (auto simp: set_zip)
    with j show ?thesis by (metis fst_conv image_eqI)
  qed
  have u: "v' = col ! i" if "(name, v') \<in> set ?kvs" for v'
    using that assms(1) by (auto simp: set_zip)
  have "to_dict (setitem df name col) ! i = py_dict ?kvs"
    using True assms(2) by (simp add: to_dict_nth setitem_def)
  then show ?thesis using map_of_rev_unique [of name ?kvs "col ! i"] k u
    by (simp add: map_of_py_dict)
next
  case False
  let ?cs = "labels (columns df)"
  have "to_dict (setitem df name col) ! i
        = py_dict (zip ?cs (map (\<lambda>c. c ! i) (data df)) @ [(name, col ! i)])"
    using False assms by (simp add: to_dict_nth setitem_def)
  then show ?thesis by (simp add: map_of_py_dict)
qed

lemma inventory_rule:
  assumes "filter (\<lambda>k. clean_label k = ''stock'') (ordered_keys raw) = [k]"
  shows "apply_business_rules pd
           \<lparr>columns = Index (map clean_label (ordered_keys raw)),
            data = map (\<lambda>c. map (\<lambda>r. cell_of r c) raw) (ordered_keys raw),
            nrows = length raw\<rparr> ''inventory''
         = Inr (setitem
             \<lparr>columns = Index (map clean_label (ordered_keys raw)),
              data = map (\<lambda>c. map (\<lambda>r. if isna (cell_of r c) then VStr '''' else cell_of r c) raw)
                       (ordered_keys raw),
              nrows = length raw\<rparr>
             ''low_stock_alert'' (map (\<lambda>r. VBool (stock_alert pd (cell_of r k))) raw))"
proof -
  let ?g = "\<lambda>c. map (\<lambda>r. if isna (cell_of r c) then VStr '''' else cell_of r c) raw"
  have mem: "''stock'' \<in> set (map clean_label (ordered_keys raw))"
  proof -
    have "k \<in> set (filter (\<lambda>k. clean_label k = ''stock'') (ordered_keys raw))"
      using assms by simp
    then have a: "k \<in> set (ordered_keys raw)" and b: "clean_label k = ''stock''"
      by simp_all
    from imageI [OF a, of clean_label] b show ?thesis by simp
  qed
  have sel: "map snd (filter (\<lambda>(c, col). c = ''stock'')
               (zip (map clean_label (ordered_keys raw)) (map ?g (ordered_keys raw)))) = [?g k]"
    using assms by (simp add: filter_zip_maps)
  have fill: "fillna (VStr '''')
           \<lparr>columns = Index (map clean_label (ordered_keys raw)),
            data = map (\<lambda>c. map (\<lambda>r. cell_of r c) raw) (ordered_keys raw),
            nrows = length raw\<rparr>
         = \<lparr>columns = Index (map clean_label (ordered_keys raw)),
            data = map ?g (ordered_keys raw), nrows = length raw\<rparr>"
    by (simp add: fillna_def comp_def)
  have get: "getitem \<lparr>columns = Index (map clean_label (ordered_keys raw)),
            data = map ?g (ordered_keys raw), nrows = length raw\<rparr> ''stock''
            = Inr (Series (?g k))"
    using sel by (simp add: getitem_def)
  have col: "np_where (map (is_below 10) (map (coerce pd) (?g k)))
             = map (\<lambda>r. VBool (stock_alert pd (cell_of r k))) raw"
    by (simp add: np_where_def stock_alert_def comp_def)
  show ?thesis
    unfolding apply_business_rules_def Let_def fill
    using mem get col by (simp add: to_numeric_def)
qed

lemma decimal_literal_3: "decimal_literal ''3'' = Some (Fin 3)"
  by (simp add: decimal_literal_def strip_def isspace_def unsigned_decimal_def digit_of_def)

lemma decimal_literal_50: "decimal_literal ''50'' = Some (Fin 50)"
  by (simp add: decimal_literal_def strip_def isspace_def unsigned_decimal_def digit_of_def)


text \<open>
  C5, as the claim states it, fails: rows with the fields \<^verbatim>\<open>stock\<close> and \<^verbatim>\<open>Stock\<close>
  contain a stock field, but both headers are normalised to \<^verbatim>\<open>stock\<close>, the
  selection \<^verbatim>\<open>df['stock']\<close> is a frame of two columns, and \<^verbatim>\<open>to_numeric\<close> refuses
  it: the converter raises and adds no field.
\<close>

theorem C5_two_stock_headers_raise:
  "process pandas2 [[(''stock'', VStr ''3''), (''Stock'', VStr ''5'')]] ''inventory''
   = Inl (TypeError ''arg must be a list, tuple, 1-d array, or Series'')"
  by (simp add: engine_defs)


text \<open>
  C5, amended. For rows of the category \<^verbatim>\<open>inventory\<close> of which exactly one field
  name \<open>k\<close> is normalised to \<^verbatim>\<open>stock\<close>, the converter returns one row for each
  input row, with a boolean field \<^verbatim>\<open>low_stock_alert\<close> that is true exactly when the
  stock value of that input row (empty when the row has none), read as a number, is
  less than 10, and false when it is not a number. For
  \<^verbatim>\<open>[{"stock": "3"}, {"stock": "50"}]\<close> that is true, then false.
\<close>

theorem C5_low_stock_alert:
  assumes "filter (\<lambda>k. clean_label k = ''stock'') (ordered_keys raw) = [k]"
  shows "\<exists>out. process pd raw ''inventory'' = Inr out \<and> length out = length raw
           \<and> (\<forall>i < length raw. map_of (out ! i) ''low_stock_alert''
                 = Some (VBool (stock_alert pd (cell_of (raw ! i) k))))"
proof -
  have ne: "raw \<noteq> []" using assms by (auto simp: ordered_keys_def)
  let ?df = "\<lparr>columns = Index (map clean_label (ordered_keys raw)),
              data = map (\<lambda>c. map (\<lambda>r. if isna (cell_of r c) then VStr '''' else cell_of r c) raw)
                       (ordered_keys raw),
              nrows = length raw\<rparr>"
  let ?col = "map (\<lambda>r. VBool (stock_alert pd (cell_of r k))) raw"
  have p: "process pd raw ''inventory'' = Inr (to_dict (setitem ?df ''low_stock_alert'' ?col))"
    using ne inventory_rule [OF assms, of pd]
    by (simp add: process_def DataFrame_def clean_headers_def str_accessor_def)
  have len: "length (to_dict (setitem ?df ''low_stock_alert'' ?col)) = length raw"
    by (simp add: length_to_dict nrows_setitem)
  have "map_of (to_dict (setitem ?df ''low_stock_alert'' ?col) ! i) ''low_stock_alert''
        = Some (VBool (stock_alert pd (cell_of (raw ! i) k)))" if "i < length raw" for i
    using setitem_lookup [of ?df i "''low_stock_alert''" ?col] that by simp
  with p len show ?thesis by simp
qed


theorem C5_low_stock_alert_witness:
  "\<exists>out. process pandas2 [[(''stock'', VStr ''3'')], [(''stock'', VStr ''50'')]] ''inventory'' = Inr out
     \<and> length out = 2
     \<and> map_of (out ! 0) ''low_stock_alert'' = Some (VBool True)
     \<and> map_of (out ! 1) ''low_stock_alert'' = Some (VBool False)"
proof -
  have h: "filter (\<lambda>k. clean_label k = ''stock'')
             (ordered_keys [[(''stock'', VStr ''3'')], [(''stock'', VStr ''50'')]]) = [''stock'']"
    by (simp add: ordered_keys_def clean_label_def strip_def isspace_def lower_def lower_char_def
          replace_space_def)
  have a: "stock_alert pandas2 (VStr ''3'')" "\<not> stock_alert pandas2 (VStr ''50'')"
    by (simp_all add: stock_alert_def isna_def pandas2_def decimal_literal_3 decimal_literal_50)
  from C5_low_stock_alert [OF h, of pandas2] obtain out where
    o: "process pandas2 [[(''stock'', VStr ''3'')], [(''stock'', VStr ''50'')]] ''inventory'' = Inr out"
    "length out = 2"
    "\<forall>i<2. map_of (out ! i) ''low_stock_alert''
        = Some (VBool (stock_alert pandas2
             (cell_of ([[(''stock'', VStr ''3'')], [(''stock'', VStr ''50'')]] ! i) ''stock'')))"
    by auto
  have "map_of (out ! 0) ''low_stock_alert'' = Some (VBool True)"
    using o(3) a by (simp add: cell_of_def)
  moreover have "map_of (out ! 1) ''low_stock_alert'' = Some (VBool False)"
    using o(3) a by (simp add: cell_of_def)
  ultimately show ?thesis using o(1,2) by blast
qed


end
